theory Spec2Isabelle
  imports Complex_Main "HOL-Library.Product_Lexorder" "HOL-Library.AList"
begin

section \<open>Values shared by the API modules\<close>

text \<open>
  A thrown JavaScript \<open>Error\<close>: its \<open>name\<close> and its \<open>message\<close>. Every \<open>throw\<close> and
  every rejected provider call of the source is the \<open>Inl\<close> branch of a sum.
\<close>

datatype js_error = JsError (err_name: string) (err_message: string)

text \<open>\<open>process.env\<close>: a variable is absent (\<open>undefined\<close>) or holds a string.\<close>

type_synonym env = "string \<Rightarrow> string option"

text \<open>
  JavaScript truthiness of an optional string: \<open>!v\<close> holds for \<open>undefined\<close>, \<open>null\<close> and
  the empty string.
\<close>

definition truthy :: "string option \<Rightarrow> bool" where
  "truthy v = (case v of None \<Rightarrow> False | Some s \<Rightarrow> s \<noteq> [])"

text \<open>
  \<open>String.prototype.toLowerCase\<close> on the ASCII letters (a \<open>char\<close> is one byte here, so
  letters outside ASCII are left as they are).
\<close>

definition toLowerChar :: "char \<Rightarrow> char" where
  "toLowerChar c =
     (let n = (of_char c :: nat) in if 65 \<le> n \<and> n \<le> 90 then char_of (n + 32) else c)"

definition toLowerCase :: "string \<Rightarrow> string" where
  "toLowerCase s = map toLowerChar s"

section \<open>The relational store (prisma/migrations)\<close>

datatype PhotoStatus = DRAFT | PUBLISHED

datatype PurchaseStatus = PENDING | PAID | FAILED | REFUNDED

text \<open>
  Table \<open>Photo\<close>. Timestamps are milliseconds; \<open>updatedAt\<close> and \<open>uploadedAt\<close> are written by
  the store and read by none of the functions below, and are left out.
\<close>

record photo =
  photo_id :: string
  photo_eventId :: string
  storageKey :: string
  mimeType :: string
  fileSize :: "int option"
  width :: "int option"
  height :: "int option"
  photo_status :: PhotoStatus
  isUploaded :: bool
  capturedAt :: "nat option"
  publishedAt :: "nat option"
  photo_createdAt :: nat

text \<open>
  Table \<open>FaceEmbedding\<close> (the spec's FaceRecord), with its unique index on
  \<open>(provider, externalId)\<close>. The generated row id and \<open>createdAt\<close> are left out.
\<close>

record faceEmbedding =
  face_photoId :: string
  provider :: string
  externalId :: string
  confidence :: "real option"

text \<open>Table \<open>Purchase\<close>, unique on \<open>stripeSessionId\<close>; the store's timestamps are left out.\<close>

record purchase =
  purchase_id :: string
  purchase_eventId :: string
  buyerEmail :: string
  stripeSessionId :: string
  stripePaymentId :: "string option"
  purchase_status :: PurchaseStatus
  amountTotal :: int
  currency :: string
  payoutStatus :: string

text \<open>Table \<open>PurchaseItem\<close>.\<close>

record purchaseItem =
  item_purchaseId :: string
  item_photoId :: "string option"
  itemType :: string
  item_amount :: int

text \<open>The store: each table is the list of its rows.\<close>

record db =
  photos :: "photo list"
  faceEmbeddings :: "faceEmbedding list"
  purchases :: "purchase list"
  purchaseItems :: "purchaseItem list"

section \<open>Webhook reconciliation (routes/stripe-webhook.ts)\<close>

text \<open>
  The fields of \<open>Stripe.Checkout.Session\<close> the handler reads. \<open>payment_intent\<close> is an id, an
  expanded object or \<open>null\<close>; \<open>customer_details_email\<close> is the value of
  \<open>session.customer_details?.email\<close>.
\<close>

datatype payment_intent_ref = PaymentIntentId string | PaymentIntentObject | PaymentIntentNull

record checkout_session =
  session_id :: string
  payment_intent :: payment_intent_ref
  customer_details_email :: "string option"
  customer_email :: "string option"

text \<open>
  \<open>markPurchasePaid\<close>: \<open>updateMany\<close> over the rows whose \<open>stripeSessionId\<close> is the session's;
  the \<open>where\<close> clause names no status. The buyer email is written only when it is truthy.
\<close>

definition markPurchasePaid :: "checkout_session \<Rightarrow> db \<Rightarrow> db" where
  "markPurchasePaid session d =
     (let paymentIntentId =
            (case payment_intent session of PaymentIntentId s \<Rightarrow> Some s | _ \<Rightarrow> None);
          email =
            (case customer_details_email session of
               Some e \<Rightarrow> Some (toLowerCase e)
             | None \<Rightarrow> map_option toLowerCase (customer_email session))
      in d\<lparr>purchases :=
            map (\<lambda>p. if stripeSessionId p = session_id session
                      then p\<lparr>purchase_status := PAID,
                             stripePaymentId := paymentIntentId,
                             buyerEmail := (if truthy email then the email else buyerEmail p)\<rparr>
                      else p)
              (purchases d)\<rparr>)"

text \<open>
  \<open>markPurchaseFailed\<close>: \<open>updateMany\<close> over the rows of the session whose status is
  \<open>PENDING\<close>.
\<close>

definition markPurchaseFailed :: "checkout_session \<Rightarrow> db \<Rightarrow> db" where
  "markPurchaseFailed session d =
     d\<lparr>purchases :=
         map (\<lambda>p. if stripeSessionId p = session_id session \<and> purchase_status p = PENDING
                   then p\<lparr>purchase_status := FAILED\<rparr>
                   else p)
           (purchases d)\<rparr>"

text \<open>
  payments/stripe.ts, \<open>constructStripeEvent\<close>: the Stripe client exists when
  \<open>STRIPE_SECRET_KEY\<close> is truthy, the webhook secret is \<open>STRIPE_WEBHOOK_SECRET ?? ""\<close>. The
  library's \<open>stripe.webhooks.constructEvent\<close> is the parameter \<open>constructEvent\<close>.
\<close>

record stripe_event =
  event_type :: string
  event_object :: checkout_session

definition constructStripeEvent ::
  "(string \<Rightarrow> string \<Rightarrow> string \<Rightarrow> js_error + stripe_event) \<Rightarrow> env \<Rightarrow> string \<Rightarrow> string
     \<Rightarrow> js_error + stripe_event" where
  "constructStripeEvent constructEvent e payload signature =
     (let stripe = truthy (e ''STRIPE_SECRET_KEY'');
          webhookSecret = (case e ''STRIPE_WEBHOOK_SECRET'' of None \<Rightarrow> [] | Some s \<Rightarrow> s)
      in if \<not> stripe \<or> webhookSecret = []
         then Inl (JsError ''Error'' ''Stripe webhook is not configured.'')
         else constructEvent payload signature webhookSecret)"

text \<open>
  The webhook request: the \<open>stripe-signature\<close> header and the body, which is a \<open>Buffer\<close>
  (\<open>Some\<close> of its bytes) or anything else.
\<close>

record webhook_request =
  stripe_signature :: "string option"
  raw_body :: "string option"

datatype webhook_response = WebhookError nat string | WebhookReceived

definition stripeWebhookHandler ::
  "(string \<Rightarrow> string \<Rightarrow> string \<Rightarrow> js_error + stripe_event) \<Rightarrow> env \<Rightarrow> webhook_request \<Rightarrow> db
     \<Rightarrow> webhook_response \<times> db" where
  "stripeWebhookHandler constructEvent e req d =
     (if \<not> truthy (stripe_signature req)
      then (WebhookError 400 ''Missing Stripe signature header.'', d)
      else case raw_body req of
        None \<Rightarrow> (WebhookError 400 ''Invalid webhook payload.'', d)
      | Some payload \<Rightarrow>
          (case constructStripeEvent constructEvent e payload (the (stripe_signature req)) of
             Inl err \<Rightarrow> (WebhookError 400 (err_message err), d)
           | Inr event \<Rightarrow>
               (let session = event_object event in
                if event_type event = ''checkout.session.completed''
                   \<or> event_type event = ''checkout.session.async_payment_succeeded''
                then (WebhookReceived, markPurchasePaid session d)
                else if event_type event = ''checkout.session.expired''
                   \<or> event_type event = ''checkout.session.async_payment_failed''
                then (WebhookReceived, markPurchaseFailed session d)
                else (WebhookReceived, d))))"

section \<open>Signed download URLs (lib/storage.ts)\<close>

text \<open>
  \<open>getStorageConfig\<close> throws when \<open>S3_BUCKET\<close> is not truthy. Of the configuration only the
  bucket reaches the command; the other fields configure the S3 client. The presigner of
  the AWS SDK is the parameter \<open>getSignedUrl\<close>, applied to bucket, key and lifetime.
\<close>

definition getStorageConfig :: "env \<Rightarrow> js_error + string" where
  "getStorageConfig e =
     (if \<not> truthy (e ''S3_BUCKET'') then Inl (JsError ''Error'' ''S3_BUCKET is required'')
      else Inr (the (e ''S3_BUCKET'')))"

definition createSignedDownloadUrl ::
  "(string \<Rightarrow> string \<Rightarrow> nat \<Rightarrow> string) \<Rightarrow> env \<Rightarrow> string \<Rightarrow> nat option \<Rightarrow> js_error + string" where
  "createSignedDownloadUrl getSignedUrl e key expiresInSeconds =
     (case getStorageConfig e of
        Inl err \<Rightarrow> Inl err
      | Inr bucket \<Rightarrow>
          Inr (getSignedUrl bucket key (case expiresInSeconds of None \<Rightarrow> 3600 | Some n \<Rightarrow> n)))"

text \<open>
  \<open>Promise.all(xs.map(f))\<close>: the list of results, or the first rejection.
\<close>

fun promise_all :: "('a \<Rightarrow> js_error + 'b) \<Rightarrow> 'a list \<Rightarrow> js_error + 'b list" where
  "promise_all f [] = Inr []"
| "promise_all f (x # xs) =
     (case f x of
        Inl err \<Rightarrow> Inl err
      | Inr y \<Rightarrow> (case promise_all f xs of Inl err \<Rightarrow> Inl err | Inr ys \<Rightarrow> Inr (y # ys)))"

section \<open>Purchase access tokens (payments/purchase-access-token.ts)\<close>

text \<open>
  What \<open>jwt.verify\<close> returns: a string, or an object of claims. The \<open>jsonwebtoken\<close>
  library is a parameter: \<open>jwt_sign payload secret expiresIn\<close> and
  \<open>jwt_verify token secret\<close>, the latter failing on a bad signature or an expired token.
\<close>

datatype json_value = JString string | JNumber int | JBool bool | JNull

datatype jwt_decoded = DecodedString string | DecodedObject "string \<Rightarrow> json_value option"

definition PURCHASE_ACCESS_TOKEN_TTL :: string where
  "PURCHASE_ACCESS_TOKEN_TTL = ''12h''"

definition getPurchaseAccessTokenSecret :: "env \<Rightarrow> string" where
  "getPurchaseAccessTokenSecret e =
     (case e ''PURCHASE_ACCESS_TOKEN_SECRET'' of
        Some s \<Rightarrow> s
      | None \<Rightarrow> (case e ''JWT_SECRET'' of Some s \<Rightarrow> s | None \<Rightarrow> ''dev-purchase-secret''))"

definition signPurchaseAccessToken ::
  "((string \<Rightarrow> json_value option) \<Rightarrow> string \<Rightarrow> string \<Rightarrow> string) \<Rightarrow> env \<Rightarrow> string \<Rightarrow> string" where
  "signPurchaseAccessToken jwt_sign e purchaseId =
     jwt_sign [''sub'' \<mapsto> JString purchaseId, ''purchaseId'' \<mapsto> JString purchaseId]
       (getPurchaseAccessTokenSecret e) PURCHASE_ACCESS_TOKEN_TTL"

definition verifyPurchaseAccessToken ::
  "(string \<Rightarrow> string \<Rightarrow> js_error + jwt_decoded) \<Rightarrow> env \<Rightarrow> string \<Rightarrow> string \<Rightarrow> js_error + unit" where
  "verifyPurchaseAccessToken jwt_verify e purchaseId token =
     (case jwt_verify token (getPurchaseAccessTokenSecret e) of
        Inl err \<Rightarrow> Inl err
      | Inr decoded \<Rightarrow>
          (case decoded of
             DecodedString _ \<Rightarrow> Inl (JsError ''Error'' ''Invalid purchase access token.'')
           | DecodedObject claims \<Rightarrow>
               (case claims ''purchaseId'' of
                  Some (JString pid) \<Rightarrow>
                    if pid \<noteq> purchaseId
                    then Inl (JsError ''Error'' ''Invalid purchase access token.'')
                    else Inr ()
                | _ \<Rightarrow> Inl (JsError ''Error'' ''Invalid purchase access token.''))))"

section \<open>The download routes (routes/public-purchases.router.ts)\<close>

text \<open>
  Modelled from the spec: the declaration of \<open>PURCHASE_ITEM_ALL_PHOTOS\<close>
  (payments/constants) is not among the sources; the constant stands for the item kind the
  spec calls \<open>all-photos\<close>. No property below depends on its value.
\<close>

definition PURCHASE_ITEM_ALL_PHOTOS :: string where
  "PURCHASE_ITEM_ALL_PHOTOS = ''all-photos''"

text \<open>
  The request: the route parameters, the \<open>authorization\<close> header, \<open>req.query.token\<close> when it
  is a string, and the \<open>x-purchase-token\<close> header.
\<close>

record download_request =
  param_purchaseId :: string
  param_photoId :: string
  authorization :: "string option"
  query_token :: "string option"
  x_purchase_token :: "string option"

text \<open>\<open>String.prototype.trim\<close> for the ASCII white space and line terminators.\<close>

definition isWhiteSpace :: "char \<Rightarrow> bool" where
  "isWhiteSpace c = ((of_char c :: nat) \<in> {9, 10, 11, 12, 13, 32})"

definition trim :: "string \<Rightarrow> string" where
  "trim s = rev (dropWhile isWhiteSpace (rev (dropWhile isWhiteSpace s)))"

definition getPurchaseTokenFromRequest :: "download_request \<Rightarrow> string option" where
  "getPurchaseTokenFromRequest req =
     (let bearerToken =
            (case authorization req of
               None \<Rightarrow> None
             | Some authHeader \<Rightarrow>
                 if authHeader \<noteq> [] \<and> take 7 authHeader = ''Bearer ''
                 then Some (trim (drop 7 authHeader)) else None)
      in case bearerToken of
           Some t \<Rightarrow> Some t
         | None \<Rightarrow> (case query_token req of Some t \<Rightarrow> Some t | None \<Rightarrow> x_purchase_token req))"

text \<open>
  \<open>getPaidPurchaseWithItems\<close>: the first purchase with the id whose status is \<open>PAID\<close>,
  with its items. (The included event columns are not read by the download routes.)
\<close>

definition getPaidPurchaseWithItems :: "string \<Rightarrow> db \<Rightarrow> (purchase \<times> purchaseItem list) option" where
  "getPaidPurchaseWithItems purchaseId d =
     (case find (\<lambda>p. purchase_id p = purchaseId \<and> purchase_status p = PAID) (purchases d) of
        None \<Rightarrow> None
      | Some p \<Rightarrow> Some (p, filter (\<lambda>i. item_purchaseId i = purchase_id p) (purchaseItems d)))"

text \<open>
  A response is an error status with its message, the single-photo answer
  \<open>{photoId, downloadUrl}\<close> or the bundle answer \<open>{count, files}\<close>. An exception that leaves
  a route reaches server/error-handler.ts: a \<open>ZodError\<close> answers 400 (its issue list is
  left out), anything else thrown here answers 500.
\<close>

datatype download_response =
    ErrorResponse nat string
  | PhotoResponse string string
  | AllResponse nat "(string \<times> string) list"

definition download_photo ::
  "(string \<Rightarrow> string \<Rightarrow> js_error + jwt_decoded) \<Rightarrow> (string \<Rightarrow> string \<Rightarrow> nat \<Rightarrow> string) \<Rightarrow> env
     \<Rightarrow> download_request \<Rightarrow> db \<Rightarrow> download_response" where
  "download_photo jwt_verify getSignedUrl e req d =
     (let purchaseId = param_purchaseId req; photoId = param_photoId req in
      if purchaseId = [] \<or> photoId = [] then ErrorResponse 400 ''Validation failed''
      else if \<not> truthy (getPurchaseTokenFromRequest req)
      then ErrorResponse 401 ''Purchase access token is required.''
      else case verifyPurchaseAccessToken jwt_verify e purchaseId
                  (the (getPurchaseTokenFromRequest req)) of
        Inl _ \<Rightarrow> ErrorResponse 401 ''Invalid purchase access token.''
      | Inr _ \<Rightarrow>
          (case getPaidPurchaseWithItems purchaseId d of
             None \<Rightarrow> ErrorResponse 404 ''Paid purchase not found.''
           | Some (purchase, items) \<Rightarrow>
               (let hasAllPhotos = list_ex (\<lambda>item. itemType item = PURCHASE_ITEM_ALL_PHOTOS) items;
                    hasPhotoAccess = list_ex (\<lambda>item. item_photoId item = Some photoId) items
                in if \<not> hasAllPhotos \<and> \<not> hasPhotoAccess
                   then ErrorResponse 403 ''Photo is not included in this purchase.''
                   else case find (\<lambda>p. photo_id p = photoId
                                       \<and> photo_eventId p = purchase_eventId purchase
                                       \<and> isUploaded p) (photos d) of
                     None \<Rightarrow> ErrorResponse 404 ''Photo not found.''
                   | Some photo \<Rightarrow>
                       (case createSignedDownloadUrl getSignedUrl e (storageKey photo) (Some 600) of
                          Inl _ \<Rightarrow> ErrorResponse 500 ''Internal server error''
                        | Inr downloadUrl \<Rightarrow> PhotoResponse (photo_id photo) downloadUrl))))"

text \<open>
  \<open>orderBy: [{publishedAt: "desc"}, {createdAt: "desc"}]\<close>: descending on PostgreSQL puts
  \<open>NULL\<close> first; rows with equal keys keep the table's order.
\<close>

definition orderByPublishedCreatedDesc :: "photo list \<Rightarrow> photo list" where
  "orderByPublishedCreatedDesc ps =
     sort_key (\<lambda>p. ((case publishedAt p of None \<Rightarrow> (0 :: int, 0 :: int) | Some t \<Rightarrow> (1, - int t)),
                     - int (photo_createdAt p))) ps"

definition publishedPhotosOfEvent :: "string \<Rightarrow> db \<Rightarrow> photo list" where
  "publishedPhotosOfEvent eventId d =
     orderByPublishedCreatedDesc
       (filter (\<lambda>p. photo_eventId p = eventId \<and> isUploaded p \<and> photo_status p = PUBLISHED)
          (photos d))"

definition download_all ::
  "(string \<Rightarrow> string \<Rightarrow> js_error + jwt_decoded) \<Rightarrow> (string \<Rightarrow> string \<Rightarrow> nat \<Rightarrow> string) \<Rightarrow> env
     \<Rightarrow> download_request \<Rightarrow> db \<Rightarrow> download_response" where
  "download_all jwt_verify getSignedUrl e req d =
     (let purchaseId = param_purchaseId req in
      if purchaseId = [] then ErrorResponse 400 ''Validation failed''
      else if \<not> truthy (getPurchaseTokenFromRequest req)
      then ErrorResponse 401 ''Purchase access token is required.''
      else case verifyPurchaseAccessToken jwt_verify e purchaseId
                  (the (getPurchaseTokenFromRequest req)) of
        Inl _ \<Rightarrow> ErrorResponse 401 ''Invalid purchase access token.''
      | Inr _ \<Rightarrow>
          (case getPaidPurchaseWithItems purchaseId d of
             None \<Rightarrow> ErrorResponse 404 ''Paid purchase not found.''
           | Some (purchase, items) \<Rightarrow>
               if \<not> list_ex (\<lambda>item. itemType item = PURCHASE_ITEM_ALL_PHOTOS) items
               then ErrorResponse 403 ''All-photos bundle was not purchased.''
               else case promise_all
                           (\<lambda>photo. case createSignedDownloadUrl getSignedUrl e
                                           (storageKey photo) (Some 600) of
                                      Inl err \<Rightarrow> Inl err
                                    | Inr downloadUrl \<Rightarrow> Inr (photo_id photo, downloadUrl))
                           (publishedPhotosOfEvent (purchase_eventId purchase) d) of
                 Inl _ \<Rightarrow> ErrorResponse 500 ''Internal server error''
               | Inr files \<Rightarrow> AllResponse (length files) files))"


text \<open>
  routes/event-photos.router.ts, the store update of the publish route:
  \<open>prisma.photo.update({where: {id}, data: {status: PUBLISHED, publishedAt: new Date()}})\<close>.
\<close>

definition publishPhotoUpdate :: "string \<Rightarrow> nat \<Rightarrow> db \<Rightarrow> db" where
  "publishPhotoUpdate photoId now d =
     d\<lparr>photos := map (\<lambda>p. if photo_id p = photoId
                           then p\<lparr>photo_status := PUBLISHED, publishedAt := Some now\<rparr> else p)
                     (photos d)\<rparr>"

section \<open>Face indexing (face/rekognition-face-search.ts)\<close>

definition FACE_PROVIDER :: string where
  "FACE_PROVIDER = ''aws-rekognition''"

datatype FaceIndexStatus = Indexed | IndexNoFaceDetected | IndexDisabled | IndexError

record FaceIndexResult =
  index_status :: FaceIndexStatus
  index_message :: "string option"

record FaceSearchConfig =
  config_bucket :: string
  collectionId :: string
  region :: string

definition getFaceSearchConfig :: "env \<Rightarrow> FaceSearchConfig option" where
  "getFaceSearchConfig e =
     (if \<not> truthy (e ''S3_BUCKET'') \<or> \<not> truthy (e ''AWS_REKOGNITION_COLLECTION_ID'') then None
      else Some \<lparr>config_bucket = the (e ''S3_BUCKET''),
                 collectionId = the (e ''AWS_REKOGNITION_COLLECTION_ID''),
                 region =
                   (case e ''AWS_REKOGNITION_REGION'' of
                      Some r \<Rightarrow> r
                    | None \<Rightarrow>
                        (case e ''AWS_REGION'' of
                           Some r \<Rightarrow> r
                         | None \<Rightarrow> (case e ''S3_REGION'' of Some r \<Rightarrow> r | None \<Rightarrow> ''us-east-1'')))\<rparr>)"

text \<open>
  The identity-match provider is an outside service: what it answers to the commands of one
  call is a parameter. A face of a response carries an optional \<open>FaceId\<close> and
  \<open>Confidence\<close>; a record of \<open>FaceRecords\<close> is its optional \<open>Face\<close>; a match of
  \<open>FaceMatches\<close> carries the optional \<open>Face?.FaceId\<close> and a \<open>Similarity\<close> that is a number
  or not. The selfie bytes and the match threshold are read by the provider only.
\<close>

record rek_face =
  FaceId :: "string option"
  Confidence :: "real option"

record face_match =
  match_FaceId :: "string option"
  Similarity :: "real option"

record rekognition_io =
  describeCollection :: "js_error + unit"
  createCollection :: "js_error + unit"
  deleteExisting :: "js_error + unit"
  indexFaces :: "js_error + rek_face option list option"
  deleteExtras :: "js_error + unit"
  searchFacesByImage :: "js_error + face_match list option"

text \<open>The module variable \<open>collectionReady\<close> is the state of the module.\<close>

definition ensureCollection :: "rekognition_io \<Rightarrow> bool \<Rightarrow> js_error + bool" where
  "ensureCollection io collectionReady =
     (if collectionReady then Inr collectionReady
      else case describeCollection io of
        Inr _ \<Rightarrow> Inr True
      | Inl err \<Rightarrow>
          if err_name err \<noteq> ''ResourceNotFoundException'' then Inl err
          else (case createCollection io of Inl err' \<Rightarrow> Inl err' | Inr _ \<Rightarrow> Inr True))"

text \<open>
  \<open>clearExistingPhotoFaces\<close>: the provider-side deletion is sent when the configuration
  exists and the photo has rows, and its failure is swallowed; the rows are deleted either
  way.
\<close>

definition clearExistingPhotoFaces :: "env \<Rightarrow> rekognition_io \<Rightarrow> string \<Rightarrow> db \<Rightarrow> db" where
  "clearExistingPhotoFaces e io photoId d =
     (let existingFaces =
            filter (\<lambda>f. face_photoId f = photoId \<and> provider f = FACE_PROVIDER) (faceEmbeddings d);
          faceIds = map externalId existingFaces;
          deleteMany =
            d\<lparr>faceEmbeddings :=
                filter (\<lambda>f. \<not> (face_photoId f = photoId \<and> provider f = FACE_PROVIDER))
                  (faceEmbeddings d)\<rparr>
      in if getFaceSearchConfig e \<noteq> None \<and> faceIds \<noteq> []
         then (case deleteExisting io of Inl _ \<Rightarrow> deleteMany | Inr _ \<Rightarrow> deleteMany)
         else deleteMany)"

text \<open>
  \<open>prisma.faceEmbedding.create\<close>: the row is appended unless it breaks the unique index on
  \<open>(provider, externalId)\<close> or the foreign key to \<open>Photo\<close>.
\<close>

definition faceEmbedding_create :: "faceEmbedding \<Rightarrow> db \<Rightarrow> js_error + db" where
  "faceEmbedding_create row d =
     (if list_ex (\<lambda>f. provider f = provider row \<and> externalId f = externalId row) (faceEmbeddings d)
      then Inl (JsError ''PrismaClientKnownRequestError''
                  ''Unique constraint failed on the fields: (provider, externalId)'')
      else if \<not> list_ex (\<lambda>p. photo_id p = face_photoId row) (photos d)
      then Inl (JsError ''PrismaClientKnownRequestError''
                  ''Foreign key constraint failed on the field: photoId'')
      else Inr (d\<lparr>faceEmbeddings := faceEmbeddings d @ [row]\<rparr>))"

text \<open>
  \<open>indexPhotoFace\<close>. Everything after the configuration check runs inside one \<open>try\<close>: a
  throw at any step answers \<open>error\<close>, with the store and the module state as the steps
  before it left them.
\<close>

definition indexPhotoFace ::
  "env \<Rightarrow> rekognition_io \<Rightarrow> photo \<Rightarrow> bool \<times> db \<Rightarrow> FaceIndexResult \<times> bool \<times> db" where
  "indexPhotoFace e io ph s =
     (case s of (ready, d) \<Rightarrow>
      if getFaceSearchConfig e = None
      then (\<lparr>index_status = IndexDisabled,
              index_message = Some ''Face search is not configured.''\<rparr>, ready, d)
      else case ensureCollection io ready of
        Inl err \<Rightarrow>
          (\<lparr>index_status = IndexError, index_message = Some (err_message err)\<rparr>, ready, d)
      | Inr ready' \<Rightarrow>
          (let d1 = clearExistingPhotoFaces e io (photo_id ph) d in
           case indexFaces io of
             Inl err \<Rightarrow>
               (\<lparr>index_status = IndexError, index_message = Some (err_message err)\<rparr>, ready', d1)
           | Inr response \<Rightarrow>
               (let faceRecords = (case response of None \<Rightarrow> [] | Some rs \<Rightarrow> rs);
                    firstFace = (case faceRecords of [] \<Rightarrow> None | r # _ \<Rightarrow> r);
                    faceId = (case firstFace of None \<Rightarrow> None | Some f \<Rightarrow> FaceId f)
                in if \<not> truthy faceId
                   then (\<lparr>index_status = IndexNoFaceDetected,
                           index_message = Some ''No clear face detected in this photo.''\<rparr>,
                         ready', d1)
                   else
                     (let extraFaceIds =
                            map the (filter truthy
                              (map (\<lambda>r. case r of None \<Rightarrow> None | Some f \<Rightarrow> FaceId f)
                                 (drop 1 faceRecords)))
                      in case (if length faceRecords > 1 \<and> extraFaceIds \<noteq> []
                               then deleteExtras io else Inr ()) of
                           Inl err \<Rightarrow>
                             (\<lparr>index_status = IndexError,
                               index_message = Some (err_message err)\<rparr>, ready', d1)
                         | Inr _ \<Rightarrow>
                             (case faceEmbedding_create
                                     \<lparr>face_photoId = photo_id ph, provider = FACE_PROVIDER,
                                      externalId = the faceId,
                                      confidence = Confidence (the firstFace)\<rparr> d1 of
                                Inl err \<Rightarrow>
                                  (\<lparr>index_status = IndexError,
                                    index_message = Some (err_message err)\<rparr>, ready', d1)
                              | Inr d2 \<Rightarrow>
                                  (\<lparr>index_status = Indexed, index_message = None\<rparr>,
                                   ready', d2))))))"

text \<open>The FaceRecords of a photo under this provider.\<close>

definition photoFaces :: "string \<Rightarrow> db \<Rightarrow> faceEmbedding list" where
  "photoFaces photoId d =
     filter (\<lambda>f. face_photoId f = photoId \<and> provider f = FACE_PROVIDER) (faceEmbeddings d)"

text \<open>
  The face the provider reported first for an \<open>IndexFaces\<close> call, and the row recorded for
  it.
\<close>

definition detectedFace :: "rekognition_io \<Rightarrow> rek_face option" where
  "detectedFace io =
     (case indexFaces io of
        Inr (Some (Some f # _)) \<Rightarrow> Some f
      | _ \<Rightarrow> None)"

definition faceRow :: "string \<Rightarrow> rek_face \<Rightarrow> faceEmbedding" where
  "faceRow photoId f =
     \<lparr>face_photoId = photoId, provider = FACE_PROVIDER, externalId = the (FaceId f),
      confidence = Confidence f\<rparr>"

text \<open>
  For the idempotence of indexing: the provider answers \<open>IndexFaces\<close> with at most one
  record; the FaceRecords a call is to leave for the photo, the row of the first reported
  face when it has a truthy face id; and the reported handle is not the handle of a
  FaceRecord of another photo (the provider hands out fresh face ids).
\<close>

definition reportsAtMostOneFace :: "rekognition_io \<Rightarrow> bool" where
  "reportsAtMostOneFace io =
     (case indexFaces io of
        Inl _ \<Rightarrow> False
      | Inr None \<Rightarrow> True
      | Inr (Some rs) \<Rightarrow> length rs \<le> 1)"

definition expectedFaceRows :: "string \<Rightarrow> rekognition_io \<Rightarrow> faceEmbedding list" where
  "expectedFaceRows photoId io =
     (case detectedFace io of
        None \<Rightarrow> []
      | Some f \<Rightarrow> if truthy (FaceId f) then [faceRow photoId f] else [])"

definition handleFree :: "db \<Rightarrow> string \<Rightarrow> rekognition_io \<Rightarrow> bool" where
  "handleFree d photoId io =
     (case detectedFace io of
        None \<Rightarrow> True
      | Some f \<Rightarrow>
          \<not> list_ex (\<lambda>row. provider row = FACE_PROVIDER \<and> Some (externalId row) = FaceId f
                             \<and> face_photoId row \<noteq> photoId)
              (faceEmbeddings d))"

section \<open>Selfie search (photos/serialize-photo.ts, face/rekognition-face-search.ts)\<close>

text \<open>
  \<open>serializePhoto\<close>: the photo's columns (the ISO rendering of the timestamps is left as the
  timestamp) and a preview URL signed with the default lifetime.
\<close>

record SerializedPhoto =
  sp_id :: string
  sp_eventId :: string
  sp_status :: PhotoStatus
  sp_mimeType :: string
  sp_fileSize :: "int option"
  sp_width :: "int option"
  sp_height :: "int option"
  sp_capturedAt :: "nat option"
  sp_publishedAt :: "nat option"
  sp_createdAt :: nat
  previewUrl :: string

definition serializePhoto ::
  "(string \<Rightarrow> string \<Rightarrow> nat \<Rightarrow> string) \<Rightarrow> env \<Rightarrow> photo \<Rightarrow> js_error + SerializedPhoto" where
  "serializePhoto getSignedUrl e ph =
     (case createSignedDownloadUrl getSignedUrl e (storageKey ph) None of
        Inl err \<Rightarrow> Inl err
      | Inr url \<Rightarrow>
          Inr \<lparr>sp_id = photo_id ph, sp_eventId = photo_eventId ph, sp_status = photo_status ph,
               sp_mimeType = mimeType ph, sp_fileSize = fileSize ph, sp_width = width ph,
               sp_height = height ph, sp_capturedAt = capturedAt ph,
               sp_publishedAt = publishedAt ph, sp_createdAt = photo_createdAt ph,
               previewUrl = url\<rparr>)"

datatype SelfieSearchStatus =
  SearchOk | SearchNoMatches | SearchNoFaceDetected | SearchDisabled | SearchError

record SelfieMatchItem =
  similarity :: real
  match_photo :: SerializedPhoto

record SelfieSearchResult =
  search_status :: SelfieSearchStatus
  matches :: "SelfieMatchItem list"
  search_message :: "string option"

text \<open>
  The loop that fills \<open>similarityByFaceId\<close>. A JavaScript \<open>Map\<close> keeps its keys in insertion
  order and \<open>set\<close> on a present key keeps the key's place: an association list under
  \<open>AList.update\<close>. A match without a truthy face id or without a numeric similarity is
  skipped; a similarity is stored when it exceeds the stored one, or 0 when there is none.
\<close>

definition similarityStep :: "face_match \<Rightarrow> (string \<times> real) list \<Rightarrow> (string \<times> real) list" where
  "similarityStep match m =
     (case (match_FaceId match, Similarity match) of
        (Some faceId, Some sim) \<Rightarrow>
          if faceId = [] then m
          else (let previous = (case map_of m faceId of None \<Rightarrow> 0 | Some v \<Rightarrow> v)
                in if sim > previous then AList.update faceId sim m else m)
      | _ \<Rightarrow> m)"

text \<open>
  The \<open>faceEmbedding.findMany\<close> of the search: rows of this provider whose handle is among
  \<open>faceIds\<close> and whose photo belongs to the event, is published and is uploaded; each row
  comes with its photo.
\<close>

definition findEligibleEmbeddings ::
  "string list \<Rightarrow> string \<Rightarrow> db \<Rightarrow> (faceEmbedding \<times> photo) list" where
  "findEligibleEmbeddings faceIds eventId d =
     List.map_filter
       (\<lambda>f. if provider f = FACE_PROVIDER \<and> externalId f \<in> set faceIds
             then (case find (\<lambda>p. photo_id p = face_photoId f) (photos d) of
                     None \<Rightarrow> None
                   | Some p \<Rightarrow>
                       if photo_eventId p = eventId \<and> photo_status p = PUBLISHED \<and> isUploaded p
                       then Some (f, p) else None)
             else None)
       (faceEmbeddings d)"

text \<open>The loop that fills \<open>bestByPhotoId\<close>.\<close>

definition bestStep ::
  "(string \<times> real) list \<Rightarrow> faceEmbedding \<times> photo \<Rightarrow> (string \<times> real \<times> photo) list
     \<Rightarrow> (string \<times> real \<times> photo) list" where
  "bestStep similarityByFaceId ep best =
     (let sim = (case map_of similarityByFaceId (externalId (fst ep)) of
                   None \<Rightarrow> 0 | Some v \<Rightarrow> v);
          previous = map_of best (face_photoId (fst ep))
      in if previous = None \<or> sim > fst (the previous)
         then AList.update (face_photoId (fst ep)) (sim, snd ep) best
         else best)"

text \<open>The similarity \<open>bestStep\<close> reads for a FaceRecord: \<open>similarityByFaceId.get(externalId) ?? 0\<close>.\<close>

definition simOf :: "(string \<times> real) list \<Rightarrow> faceEmbedding \<Rightarrow> real" where
  "simOf sims f = (case map_of sims (externalId f) of None \<Rightarrow> 0 | Some v \<Rightarrow> v)"

text \<open>
  \<open>xs.slice(0, end)\<close> for an integer \<open>end\<close>: a negative \<open>end\<close> counts from the end of the
  array.
\<close>

definition slice0 :: "int \<Rightarrow> 'a list \<Rightarrow> 'a list" where
  "slice0 end xs =
     (if end < 0 then take (nat (int (length xs) + end)) xs else take (nat end) xs)"

text \<open>The \<open>catch\<close> of \<open>findSelfieMatches\<close>.\<close>

definition selfieCatch :: "js_error \<Rightarrow> SelfieSearchResult" where
  "selfieCatch err =
     (if err_name err = ''InvalidParameterException''
      then \<lparr>search_status = SearchNoFaceDetected, matches = [],
             search_message = Some ''No face detected in the selfie.''\<rparr>
      else \<lparr>search_status = SearchError, matches = [],
             search_message = Some (err_message err)\<rparr>)"

text \<open>
  \<open>findSelfieMatches\<close>. The store is only read; the module state may change in
  \<open>ensureCollection\<close>. \<open>Array.prototype.sort\<close> is stable, and the comparator
  \<open>b.similarity - a.similarity\<close> orders by descending similarity.
\<close>

definition findSelfieMatches ::
  "env \<Rightarrow> rekognition_io \<Rightarrow> (string \<Rightarrow> string \<Rightarrow> nat \<Rightarrow> string) \<Rightarrow> string \<Rightarrow> int \<Rightarrow> bool \<times> db
     \<Rightarrow> SelfieSearchResult \<times> bool" where
  "findSelfieMatches e io getSignedUrl eventId limit s =
     (case s of (ready, d) \<Rightarrow>
      if getFaceSearchConfig e = None
      then (\<lparr>search_status = SearchDisabled, matches = [],
              search_message = Some ''Face search is not configured.''\<rparr>, ready)
      else case ensureCollection io ready of
        Inl err \<Rightarrow> (selfieCatch err, ready)
      | Inr ready' \<Rightarrow>
          (case searchFacesByImage io of
             Inl err \<Rightarrow> (selfieCatch err, ready')
           | Inr response \<Rightarrow>
               (let faceMatches = (case response of None \<Rightarrow> [] | Some ms \<Rightarrow> ms) in
                if faceMatches = []
                then (\<lparr>search_status = SearchNoMatches, matches = [], search_message = None\<rparr>,
                      ready')
                else
                  (let similarityByFaceId = fold similarityStep faceMatches [];
                       faceIds = map fst similarityByFaceId
                   in if faceIds = []
                      then (\<lparr>search_status = SearchNoFaceDetected, matches = [],
                              search_message = Some ''No face detected in the selfie.''\<rparr>,
                            ready')
                      else
                        (let faceEmbeddings = findEligibleEmbeddings faceIds eventId d in
                         if faceEmbeddings = []
                         then (\<lparr>search_status = SearchNoMatches, matches = [],
                                 search_message = None\<rparr>, ready')
                         else
                           (let bestByPhotoId =
                                  fold (bestStep similarityByFaceId) faceEmbeddings [];
                                topMatches =
                                  slice0 limit
                                    (sort_key (\<lambda>m. - fst m) (map snd bestByPhotoId))
                            in case promise_all
                                      (\<lambda>m. case serializePhoto getSignedUrl e (snd m) of
                                              Inl err \<Rightarrow> Inl err
                                            | Inr sp \<Rightarrow>
                                                Inr \<lparr>similarity = fst m, match_photo = sp\<rparr>)
                                      topMatches of
                                 Inl err \<Rightarrow> (selfieCatch err, ready')
                               | Inr serializedMatches \<Rightarrow>
                                   (\<lparr>search_status = SearchOk, matches = serializedMatches,
                                     search_message = None\<rparr>, ready')))))))"

text \<open>
  routes/public-events.router.ts, \<open>findMeQuerySchema\<close>:
  \<open>z.coerce.number().int().min(1).max(50).optional().default(24)\<close> on \<open>req.query.limit\<close>,
  which is absent, coerces to \<open>NaN\<close> or an infinity (both refused), or coerces to a finite
  number.
\<close>

datatype query_number = Absent | NotANumber | Num real

definition findMeQuerySchema :: "query_number \<Rightarrow> js_error + int" where
  "findMeQuerySchema limit =
     (case limit of
        Absent \<Rightarrow> Inr 24
      | NotANumber \<Rightarrow> Inl (JsError ''ZodError'' ''Validation failed'')
      | Num v \<Rightarrow>
          if v \<noteq> of_int \<lfloor>v\<rfloor> \<or> v < 1 \<or> v > 50
          then Inl (JsError ''ZodError'' ''Validation failed'')
          else Inr \<lfloor>v\<rfloor>)"

text \<open>
  What the provider reported for a selfie: similarity \<open>s\<close> for the face handle \<open>fid\<close>; and
  a handle that resolves to a photo through a FaceRecord of the store.
\<close>

definition reported :: "rekognition_io \<Rightarrow> string \<Rightarrow> real \<Rightarrow> bool" where
  "reported io fid s =
     (case searchFacesByImage io of
        Inr (Some ms) \<Rightarrow>
          fid \<noteq> [] \<and> list_ex (\<lambda>m. match_FaceId m = Some fid \<and> Similarity m = Some s) ms
      | _ \<Rightarrow> False)"

definition resolvesTo :: "db \<Rightarrow> string \<Rightarrow> string \<Rightarrow> bool" where
  "resolvesTo d fid photoId =
     list_ex (\<lambda>f. provider f = FACE_PROVIDER \<and> externalId f = fid \<and> face_photoId f = photoId)
       (faceEmbeddings d)"





section \<open>Example data\<close>

subsection \<open>Example data for the reconciliation scenarios\<close>

text \<open>
  Checkout session \<open>cs_1\<close> and its purchase, in a given payment state. The test double
  for \<open>constructEvent\<close> accepts one signature under the test secret of
  payments/stripe.test.ts and reads the event type from the payload.
\<close>

definition cs_1 :: checkout_session where
  "cs_1 = \<lparr>session_id = ''cs_1'', payment_intent = PaymentIntentId ''pi_1'',
           customer_details_email = Some ''guest@example.com'', customer_email = None\<rparr>"

text \<open>A later delivery for the same session with another payload.\<close>

definition cs_1_late :: checkout_session where
  "cs_1_late = \<lparr>session_id = ''cs_1'', payment_intent = PaymentIntentNull,
                customer_details_email = None, customer_email = Some ''other@example.com''\<rparr>"

definition PUR1 :: "PurchaseStatus \<Rightarrow> purchase" where
  "PUR1 st = \<lparr>purchase_id = ''PUR1'', purchase_eventId = ''E1'',
              buyerEmail = ''guest@example.com'', stripeSessionId = ''cs_1'',
              stripePaymentId = None, purchase_status = st, amountTotal = 2500,
              currency = ''usd'', payoutStatus = ''pending''\<rparr>"

definition purchase_store :: "purchase list \<Rightarrow> db" where
  "purchase_store ps = \<lparr>photos = [], faceEmbeddings = [], purchases = ps, purchaseItems = []\<rparr>"

definition test_env :: env where
  "test_env = [''STRIPE_SECRET_KEY'' \<mapsto> ''sk_test_example'',
               ''STRIPE_WEBHOOK_SECRET'' \<mapsto> ''whsec_test_secret'']"

definition test_constructEvent :: "string \<Rightarrow> string \<Rightarrow> string \<Rightarrow> js_error + stripe_event" where
  "test_constructEvent payload signature secret =
     (if signature = ''t=1,v1=good'' \<and> secret = ''whsec_test_secret''
      then Inr \<lparr>event_type = payload, event_object = cs_1\<rparr>
      else Inl (JsError ''StripeSignatureVerificationError'' ''No matching signature.''))"

definition webhook_delivery :: "string \<Rightarrow> webhook_request" where
  "webhook_delivery ty = \<lparr>stripe_signature = Some ''t=1,v1=good'', raw_body = Some ty\<rparr>"

subsection \<open>Example data for the download scenarios\<close>

text \<open>
  Test doubles for the token library and the presigner, an event \<open>E1\<close> with a published
  photo \<open>P1\<close> and a draft photo \<open>P9\<close>, a photo of another event, purchase \<open>PUR1\<close> with an
  all-photos item and purchase \<open>PUR2\<close> with a single-photo item for \<open>P9\<close>.
\<close>

definition test_jwt_sign :: "(string \<Rightarrow> json_value option) \<Rightarrow> string \<Rightarrow> string \<Rightarrow> string" where
  "test_jwt_sign payload secret ttl =
     ''grant:'' @ (case payload ''purchaseId'' of Some (JString p) \<Rightarrow> p | _ \<Rightarrow> [])"

definition test_jwt_verify :: "string \<Rightarrow> string \<Rightarrow> js_error + jwt_decoded" where
  "test_jwt_verify token secret =
     (if take 6 token = ''grant:'' \<and> secret = ''dev-purchase-secret''
      then Inr (DecodedObject [''sub'' \<mapsto> JString (drop 6 token),
                               ''purchaseId'' \<mapsto> JString (drop 6 token)])
      else Inl (JsError ''JsonWebTokenError'' ''invalid signature''))"

definition test_getSignedUrl :: "string \<Rightarrow> string \<Rightarrow> nat \<Rightarrow> string" where
  "test_getSignedUrl bucket key ttl =
     ''https://'' @ bucket @ ''/'' @ key @ (if ttl = 600 then ''?ttl=600'' else ''?ttl=other'')"

definition download_env :: env where
  "download_env = [''S3_BUCKET'' \<mapsto> ''snapflow'']"

definition example_photo :: "string \<Rightarrow> string \<Rightarrow> PhotoStatus \<Rightarrow> nat option \<Rightarrow> photo" where
  "example_photo pid ev st pub =
     \<lparr>photo_id = pid, photo_eventId = ev, storageKey = ev @ ''/'' @ pid,
      mimeType = ''image/jpeg'', fileSize = None, width = None, height = None,
      photo_status = st, isUploaded = True, capturedAt = None, publishedAt = pub,
      photo_createdAt = 1\<rparr>"

definition PUR2 :: purchase where
  "PUR2 = (PUR1 PAID)\<lparr>purchase_id := ''PUR2'', stripeSessionId := ''cs_2''\<rparr>"

definition gallery_store :: db where
  "gallery_store =
     \<lparr>photos = [example_photo ''P1'' ''E1'' PUBLISHED (Some 5),
                example_photo ''P9'' ''E1'' DRAFT None,
                example_photo ''PX'' ''E2'' PUBLISHED (Some 7)],
      faceEmbeddings = [],
      purchases = [PUR1 PAID, PUR2],
      purchaseItems =
        [\<lparr>item_purchaseId = ''PUR1'', item_photoId = None,
          itemType = PURCHASE_ITEM_ALL_PHOTOS, item_amount = 2500\<rparr>,
         \<lparr>item_purchaseId = ''PUR2'', item_photoId = Some ''P9'',
          itemType = ''single-photo'', item_amount = 500\<rparr>]\<rparr>"

definition bearer_request :: "string \<Rightarrow> string \<Rightarrow> string \<Rightarrow> download_request" where
  "bearer_request purchaseId photoId token =
     \<lparr>param_purchaseId = purchaseId, param_photoId = photoId,
      authorization = Some (''Bearer '' @ token), query_token = None,
      x_purchase_token = None\<rparr>"

subsection \<open>Example data for the face index scenarios\<close>

text \<open>
  A configured provider that answers every command, reporting the given faces for
  \<open>IndexFaces\<close> and the given matches for \<open>SearchFacesByImage\<close>.
\<close>

definition face_env :: env where
  "face_env = [''S3_BUCKET'' \<mapsto> ''snapflow'',
               ''AWS_REKOGNITION_COLLECTION_ID'' \<mapsto> ''snapflow-faces'']"

definition detected :: "string \<Rightarrow> rek_face option" where
  "detected fid = Some \<lparr>FaceId = Some fid, Confidence = Some 99\<rparr>"

definition provider_answers :: "rek_face option list \<Rightarrow> face_match list \<Rightarrow> rekognition_io" where
  "provider_answers faces found =
     \<lparr>describeCollection = Inr (), createCollection = Inr (), deleteExisting = Inr (),
      indexFaces = Inr (Some faces), deleteExtras = Inr (),
      searchFacesByImage = Inr (Some found)\<rparr>"

definition P1 :: photo where
  "P1 = example_photo ''P1'' ''E1'' PUBLISHED (Some 5)"

text \<open>
  The store of the search scenarios: \<open>F1\<close> is the face of the published photo \<open>P1\<close> of
  \<open>E1\<close>, \<open>F9\<close> the face of the draft photo \<open>P9\<close>, \<open>FX\<close> the face of a photo of another
  event.
\<close>

definition faces_store :: db where
  "faces_store =
     gallery_store\<lparr>faceEmbeddings :=
       [faceRow ''P1'' (the (detected ''F1'')), faceRow ''P9'' (the (detected ''F9'')),
        faceRow ''PX'' (the (detected ''FX''))]\<rparr>"

definition reportedMatch :: "string \<Rightarrow> real \<Rightarrow> face_match" where
  "reportedMatch fid s = \<lparr>match_FaceId = Some fid, Similarity = Some s\<rparr>"

section \<open>Properties of webhook reconciliation\<close>

lemma markPurchaseFailed_length:
  "length (purchases (markPurchaseFailed session d)) = length (purchases d)"
  by (simp add: markPurchaseFailed_def)

lemma markPurchaseFailed_nth:
  "i < length (purchases d) \<Longrightarrow>
   purchases (markPurchaseFailed session d) ! i =
     (if stripeSessionId (purchases d ! i) = session_id session
         \<and> purchase_status (purchases d ! i) = PENDING
      then (purchases d ! i)\<lparr>purchase_status := FAILED\<rparr> else purchases d ! i)"
  by (simp add: markPurchaseFailed_def)

lemma markPurchasePaid_nth:
  "i < length (purchases d) \<Longrightarrow>
   stripeSessionId (purchases d ! i) \<noteq> session_id session \<Longrightarrow>
   purchases (markPurchasePaid session d) ! i = purchases d ! i"
  by (simp add: markPurchasePaid_def Let_def)

lemma markPurchasePaid_status_nth:
  "i < length (purchases d) \<Longrightarrow>
   purchase_status (purchases (markPurchasePaid session d) ! i) =
     (if stripeSessionId (purchases d ! i) = session_id session then PAID
      else purchase_status (purchases d ! i))"
  by (simp add: markPurchasePaid_def Let_def)

lemma markPurchasePaid_idem:
  "markPurchasePaid session (markPurchasePaid session d) = markPurchasePaid session d"
  by (simp add: markPurchasePaid_def Let_def comp_def cong: if_cong)

lemma markPurchaseFailed_idem:
  "markPurchaseFailed session (markPurchaseFailed session d) = markPurchaseFailed session d"
  by (simp add: markPurchaseFailed_def comp_def cong: if_cong)

text \<open>Whatever the request, the handler leaves the store alone or runs one of the two updates.\<close>

lemma stripeWebhookHandler_cases:
  "snd (stripeWebhookHandler ce e req d) = d
   \<or> (\<exists>s. snd (stripeWebhookHandler ce e req d) = markPurchasePaid s d)
   \<or> (\<exists>s. snd (stripeWebhookHandler ce e req d) = markPurchaseFailed s d)"
  by (auto simp: stripeWebhookHandler_def Let_def split: option.splits sum.splits)

lemma stripeWebhookHandler_failed_event:
  "stripe_signature req = Some sg \<Longrightarrow> sg \<noteq> [] \<Longrightarrow> raw_body req = Some payload \<Longrightarrow>
   constructStripeEvent ce e payload sg = Inr ev \<Longrightarrow>
   event_type ev = ''checkout.session.expired''
     \<or> event_type ev = ''checkout.session.async_payment_failed'' \<Longrightarrow>
   stripeWebhookHandler ce e req d = (WebhookReceived, markPurchaseFailed (event_object ev) d)"
  by (auto simp: stripeWebhookHandler_def Let_def truthy_def)

lemma stripeWebhookHandler_paid_stays_paid:
  assumes "i < length (purchases d)" and "purchase_status (purchases d ! i) = PAID"
  shows "purchase_status (purchases (snd (stripeWebhookHandler ce e req d)) ! i) = PAID"
  using stripeWebhookHandler_cases [of ce e req d] assms
  by (auto simp: markPurchasePaid_status_nth markPurchaseFailed_nth)

lemma markPurchasePaid_stamp_nth:
  "i < length (purchases d) \<Longrightarrow> stripeSessionId (purchases d ! i) = session_id session \<Longrightarrow>
   stripePaymentId (purchases (markPurchasePaid session d) ! i)
     = (case payment_intent session of PaymentIntentId x \<Rightarrow> Some x | _ \<Rightarrow> None)"
  by (simp add: markPurchasePaid_def Let_def)

lemma markPurchasePaid_replay_status:
  assumes "i < length (purchases d)" and "session_id s' = session_id s"
  shows "purchase_status (purchases (markPurchasePaid s' (markPurchasePaid s d)) ! i)
           = purchase_status (purchases (markPurchasePaid s d) ! i)"
proof -
  have len: "i < length (purchases (markPurchasePaid s d))"
    using assms(1) by (simp add: markPurchasePaid_def Let_def)
  have sid: "stripeSessionId (purchases (markPurchasePaid s d) ! i) = stripeSessionId (purchases d ! i)"
    using assms(1) by (simp add: markPurchasePaid_def Let_def)
  show ?thesis
    using assms by (simp add: markPurchasePaid_status_nth [OF len] sid markPurchasePaid_status_nth)
qed

lemma markPurchaseFailed_replay:
  assumes "session_id s' = session_id s"
  shows "markPurchaseFailed s' (markPurchaseFailed s d) = markPurchaseFailed s d"
  using assms by (simp add: markPurchaseFailed_def comp_def cong: if_cong)

text \<open>
  C1 (as the code has it). Once a purchase is paid, no webhook delivery of any kind changes
  its payment state. The failed update is conditioned on the current state: it touches only
  pending purchases, so a purchase that is paid, failed or refunded is left as it is, and a
  second failed delivery for the session, whatever its payload, leaves the store as the
  first left it. The paid update is conditioned on the session id only: it sets \<open>PAID\<close> and
  the payment id of the delivery on every purchase of the session whatever its state,
  leaves the other purchases alone, and a second paid delivery for the session, whatever
  its payload, leaves the payment state as the first left it.
\<close>

theorem reconciliation_terminal_states:
  assumes "i < length (purchases d)" and "session_id s' = session_id s"
  shows "(purchase_status (purchases d ! i) = PAID \<longrightarrow>
            purchase_status (purchases (snd (stripeWebhookHandler ce e req d)) ! i) = PAID)
       \<and> (purchase_status (purchases d ! i) \<noteq> PENDING \<longrightarrow>
            purchases (markPurchaseFailed s d) ! i = purchases d ! i)
       \<and> (stripeSessionId (purchases d ! i) = session_id s \<longrightarrow>
            purchase_status (purchases (markPurchasePaid s d) ! i) = PAID
            \<and> stripePaymentId (purchases (markPurchasePaid s d) ! i)
                = (case payment_intent s of PaymentIntentId x \<Rightarrow> Some x | _ \<Rightarrow> None))
       \<and> (stripeSessionId (purchases d ! i) \<noteq> session_id s \<longrightarrow>
            purchases (markPurchasePaid s d) ! i = purchases d ! i)
       \<and> markPurchaseFailed s' (markPurchaseFailed s d) = markPurchaseFailed s d
       \<and> purchase_status (purchases (markPurchasePaid s' (markPurchasePaid s d)) ! i)
           = purchase_status (purchases (markPurchasePaid s d) ! i)"
proof -
  have "purchase_status (purchases d ! i) = PAID \<longrightarrow>
          purchase_status (purchases (snd (stripeWebhookHandler ce e req d)) ! i) = PAID"
    using assms(1) by (simp add: stripeWebhookHandler_paid_stays_paid)
  moreover have "purchase_status (purchases d ! i) \<noteq> PENDING \<longrightarrow>
          purchases (markPurchaseFailed s d) ! i = purchases d ! i"
    using assms(1) by (simp add: markPurchaseFailed_nth)
  moreover have "stripeSessionId (purchases d ! i) = session_id s \<longrightarrow>
          purchase_status (purchases (markPurchasePaid s d) ! i) = PAID
          \<and> stripePaymentId (purchases (markPurchasePaid s d) ! i)
                = (case payment_intent s of PaymentIntentId x \<Rightarrow> Some x | _ \<Rightarrow> None)"
    using assms(1) by (simp add: markPurchasePaid_status_nth markPurchasePaid_stamp_nth)
  moreover have "stripeSessionId (purchases d ! i) \<noteq> session_id s \<longrightarrow>
          purchases (markPurchasePaid s d) ! i = purchases d ! i"
    using assms(1) by (simp add: markPurchasePaid_nth)
  moreover note markPurchaseFailed_replay [OF assms(2), of d]
    markPurchasePaid_replay_status [OF assms]
  ultimately show ?thesis by blast
qed

text \<open>
  The scenario of the spec: \<open>succeeded\<close> delivered for \<open>cs_1\<close> makes the purchase \<open>PAID\<close>, a
  second delivery for the session with another payload keeps it \<open>PAID\<close>, and a late
  \<open>failed\<close> delivery leaves a purchase that is not pending as it is.
\<close>

theorem reconciliation_terminal_states_witness:
  "purchase_status
     (purchases (snd (stripeWebhookHandler test_constructEvent test_env
        (webhook_delivery ''checkout.session.completed'') (purchase_store [PUR1 PAID]))) ! 0) = PAID
   \<and> purchases (markPurchaseFailed cs_1 (purchase_store [PUR1 FAILED])) ! 0 = PUR1 FAILED
   \<and> purchase_status (purchases (markPurchasePaid cs_1 (purchase_store [PUR1 PENDING])) ! 0) = PAID
   \<and> stripePaymentId (purchases (markPurchasePaid cs_1 (purchase_store [PUR1 PENDING])) ! 0)
       = Some ''pi_1''
   \<and> markPurchaseFailed cs_1_late (markPurchaseFailed cs_1 (purchase_store [PUR1 PENDING]))
       = markPurchaseFailed cs_1 (purchase_store [PUR1 PENDING])
   \<and> purchase_status
       (purchases (markPurchasePaid cs_1_late
          (markPurchasePaid cs_1 (purchase_store [PUR1 PENDING]))) ! 0) = PAID"
proof -
  have same: "session_id cs_1_late = session_id cs_1"
    by (simp add: cs_1_late_def cs_1_def)
  have len: "0 < length (purchases (purchase_store [PUR1 st]))" for st
    by (simp add: purchase_store_def)
  note paid = reconciliation_terminal_states [OF len [of PAID] same, of test_constructEvent
      test_env "webhook_delivery ''checkout.session.completed''"]
  note failed = reconciliation_terminal_states [OF len [of FAILED] same, of test_constructEvent
      test_env "webhook_delivery ''checkout.session.completed''"]
  note pending = reconciliation_terminal_states [OF len [of PENDING] same, of test_constructEvent
      test_env "webhook_delivery ''checkout.session.completed''"]
  show ?thesis
    using paid failed pending
    by (simp add: cs_1_def PUR1_def purchase_store_def)
qed

text \<open>
  C1 as stated fails: a purchase in state \<open>FAILED\<close> is moved to \<open>PAID\<close> by a later
  \<open>checkout.session.completed\<close> delivery for its session.
\<close>

theorem failed_purchase_is_repaid_counterexample:
  "purchase_status (purchases (purchase_store [PUR1 FAILED]) ! 0) = FAILED
   \<and> purchase_status
       (purchases (snd (stripeWebhookHandler test_constructEvent test_env
          (webhook_delivery ''checkout.session.completed'') (purchase_store [PUR1 FAILED]))) ! 0)
       \<noteq> purchase_status (purchases (purchase_store [PUR1 FAILED]) ! 0)"
  by code_simp

text \<open>
  C9. A failed reconciliation is a no-op on a paid purchase: \<open>markPurchaseFailed\<close> returns
  the row as it was (only \<open>PENDING\<close> rows are updated), and so does the webhook handler on a
  \<open>checkout.session.expired\<close> or \<open>checkout.session.async_payment_failed\<close> event.
\<close>

theorem failed_reconciliation_keeps_paid:
  assumes "i < length (purchases d)" and "purchase_status (purchases d ! i) = PAID"
  shows "purchases (markPurchaseFailed session d) ! i = purchases d ! i
       \<and> length (purchases (markPurchaseFailed session d)) = length (purchases d)
       \<and> (stripe_signature req = Some sg \<and> sg \<noteq> [] \<and> raw_body req = Some payload
            \<and> constructStripeEvent ce e payload sg = Inr ev
            \<and> (event_type ev = ''checkout.session.expired''
                 \<or> event_type ev = ''checkout.session.async_payment_failed'')
          \<longrightarrow> purchases (snd (stripeWebhookHandler ce e req d)) ! i = purchases d ! i)"
proof -
  have row: "purchases (markPurchaseFailed s' d) ! i = purchases d ! i" for s'
    using assms by (simp add: markPurchaseFailed_nth)
  show ?thesis
    using row by (auto simp: markPurchaseFailed_length dest!: stripeWebhookHandler_failed_event [where d = d])
qed

theorem failed_reconciliation_keeps_paid_witness:
  "purchases (markPurchaseFailed cs_1 (purchase_store [PUR1 PAID])) ! 0 = PUR1 PAID
   \<and> purchases (snd (stripeWebhookHandler test_constructEvent test_env
        (webhook_delivery ''checkout.session.async_payment_failed'')
        (purchase_store [PUR1 PAID]))) ! 0 = PUR1 PAID"
proof -
  have ev: "constructStripeEvent test_constructEvent test_env
              ''checkout.session.async_payment_failed'' ''t=1,v1=good''
            = Inr \<lparr>event_type = ''checkout.session.async_payment_failed'', event_object = cs_1\<rparr>"
    by (simp add: constructStripeEvent_def test_env_def test_constructEvent_def truthy_def)
  show ?thesis
    using failed_reconciliation_keeps_paid [of 0 "purchase_store [PUR1 PAID]" cs_1
        "webhook_delivery ''checkout.session.async_payment_failed''" "''t=1,v1=good''"
        "''checkout.session.async_payment_failed''" test_constructEvent test_env
        "\<lparr>event_type = ''checkout.session.async_payment_failed'', event_object = cs_1\<rparr>"] ev
    by (simp add: purchase_store_def PUR1_def webhook_delivery_def)
qed

section \<open>Properties of the access grant and the download routes\<close>

lemma verifyPurchaseAccessToken_ok_iff:
  "verifyPurchaseAccessToken jwt_verify e A t = Inr () \<longleftrightarrow>
     (\<exists>c. jwt_verify t (getPurchaseAccessTokenSecret e) = Inr (DecodedObject c)
          \<and> c ''purchaseId'' = Some (JString A))"
  unfolding verifyPurchaseAccessToken_def
  by (cases "jwt_verify t (getPurchaseAccessTokenSecret e)")
     (auto split: jwt_decoded.splits option.splits json_value.splits)

lemma verifyPurchaseAccessToken_other_purchase:
  assumes "A \<noteq> B"
      and "jwt_verify token (getPurchaseAccessTokenSecret e) = Inr (DecodedObject claims)"
      and "claims ''purchaseId'' = Some (JString B)"
  shows "verifyPurchaseAccessToken jwt_verify e A token
           = Inl (JsError ''Error'' ''Invalid purchase access token.'')"
  using assms by (simp add: verifyPurchaseAccessToken_def)









text \<open>
  C2. A grant whose signature is valid and which has not expired (the library accepts it and
  returns its claims) but whose \<open>purchaseId\<close> claim is \<open>B\<close> is rejected for a request about
  a different purchase \<open>A\<close>: the verification throws, and both download routes answer 401.
  Verification for \<open>A\<close> succeeds exactly for the tokens the library accepts with the
  \<open>purchaseId\<close> claim equal to \<open>A\<close>.
\<close>

theorem grant_for_other_purchase_rejected:
  assumes "A \<noteq> B"
      and "jwt_verify token (getPurchaseAccessTokenSecret e) = Inr (DecodedObject claims)"
      and "claims ''purchaseId'' = Some (JString B)"
  shows "verifyPurchaseAccessToken jwt_verify e A token
           = Inl (JsError ''Error'' ''Invalid purchase access token.'')
       \<and> (param_purchaseId req = A \<and> A \<noteq> [] \<and> param_photoId req \<noteq> []
            \<and> getPurchaseTokenFromRequest req = Some token \<and> token \<noteq> []
          \<longrightarrow> download_photo jwt_verify gsu e req d
                 = ErrorResponse 401 ''Invalid purchase access token.''
              \<and> download_all jwt_verify gsu e req d
                 = ErrorResponse 401 ''Invalid purchase access token.'')
       \<and> (\<forall>t. verifyPurchaseAccessToken jwt_verify e A t = Inr () \<longleftrightarrow>
              (\<exists>c. jwt_verify t (getPurchaseAccessTokenSecret e) = Inr (DecodedObject c)
                   \<and> c ''purchaseId'' = Some (JString A)))"
proof -
  have rej: "verifyPurchaseAccessToken jwt_verify e A token
               = Inl (JsError ''Error'' ''Invalid purchase access token.'')"
    using assms by (rule verifyPurchaseAccessToken_other_purchase)
  have routes: "download_photo jwt_verify gsu e req d
                  = ErrorResponse 401 ''Invalid purchase access token.''
              \<and> download_all jwt_verify gsu e req d
                  = ErrorResponse 401 ''Invalid purchase access token.''"
    if "param_purchaseId req = A" "A \<noteq> []" "param_photoId req \<noteq> []"
       "getPurchaseTokenFromRequest req = Some token" "token \<noteq> []"
    using that rej by (simp add: download_photo_def download_all_def Let_def truthy_def)
  show ?thesis
    using rej routes verifyPurchaseAccessToken_ok_iff [of jwt_verify e A] by blast
qed

theorem grant_for_other_purchase_rejected_witness:
  "verifyPurchaseAccessToken test_jwt_verify download_env ''PUR3''
       (signPurchaseAccessToken test_jwt_sign download_env ''PUR2'')
     = Inl (JsError ''Error'' ''Invalid purchase access token.'')
   \<and> download_photo test_jwt_verify test_getSignedUrl download_env
       (bearer_request ''PUR3'' ''P9'' (signPurchaseAccessToken test_jwt_sign download_env ''PUR2''))
       gallery_store
     = ErrorResponse 401 ''Invalid purchase access token.''
   \<and> download_all test_jwt_verify test_getSignedUrl download_env
       (bearer_request ''PUR3'' ''P9'' (signPurchaseAccessToken test_jwt_sign download_env ''PUR2''))
       gallery_store
     = ErrorResponse 401 ''Invalid purchase access token.''"
proof -
  have tok: "signPurchaseAccessToken test_jwt_sign download_env ''PUR2'' = ''grant:PUR2''"
    by (simp add: signPurchaseAccessToken_def test_jwt_sign_def)
  have dec: "test_jwt_verify ''grant:PUR2'' (getPurchaseAccessTokenSecret download_env)
               = Inr (DecodedObject [''sub'' \<mapsto> JString ''PUR2'', ''purchaseId'' \<mapsto> JString ''PUR2''])"
    by (simp add: test_jwt_verify_def getPurchaseAccessTokenSecret_def download_env_def)
  have req: "getPurchaseTokenFromRequest (bearer_request ''PUR3'' ''P9'' ''grant:PUR2'')
               = Some ''grant:PUR2''"
    by code_simp
  show ?thesis
    using grant_for_other_purchase_rejected [of "''PUR3''" "''PUR2''" test_jwt_verify
        "''grant:PUR2''" download_env
        "[''sub'' \<mapsto> JString ''PUR2'', ''purchaseId'' \<mapsto> JString ''PUR2'']"
        "bearer_request ''PUR3'' ''P9'' ''grant:PUR2''" test_getSignedUrl gallery_store]
      dec req
    by (simp add: tok bearer_request_def)
qed





section \<open>Properties of face indexing\<close>

lemma photoFaces_clearExistingPhotoFaces:
  "photoFaces photoId (clearExistingPhotoFaces e io photoId d) = []"
  by (auto simp: photoFaces_def clearExistingPhotoFaces_def Let_def filter_empty_conv
      split: sum.splits)

lemma photoFaces_create:
  "faceEmbedding_create row d = Inr d' \<Longrightarrow>
   photoFaces photoId d' =
     photoFaces photoId d
       @ (if face_photoId row = photoId \<and> provider row = FACE_PROVIDER then [row] else [])"
  by (auto simp: faceEmbedding_create_def photoFaces_def split: if_splits)

text \<open>The store after one call, by the status answered.\<close>

lemma indexPhotoFace_store:
  assumes "indexPhotoFace e io ph (ready, d) = (r, ready', d')"
  shows "(index_status r = Indexed \<longrightarrow>
            (\<exists>f. detectedFace io = Some f \<and> truthy (FaceId f)
                 \<and> faceEmbedding_create (faceRow (photo_id ph) f)
                      (clearExistingPhotoFaces e io (photo_id ph) d) = Inr d'))
       \<and> (index_status r = IndexNoFaceDetected \<longrightarrow>
            d' = clearExistingPhotoFaces e io (photo_id ph) d)
       \<and> (index_status r = IndexError \<longrightarrow>
            d' = d \<or> d' = clearExistingPhotoFaces e io (photo_id ph) d)
       \<and> (index_status r = IndexDisabled \<longrightarrow> d' = d)"
  using assms
  by (auto simp: indexPhotoFace_def Let_def detectedFace_def faceRow_def truthy_def
      split: if_splits sum.splits option.splits list.splits)

lemma indexPhotoFace_photoFaces:
  assumes "indexPhotoFace e io ph (ready, d) = (r, ready', d')"
  shows "(index_status r = Indexed \<longrightarrow>
            (\<exists>f. detectedFace io = Some f \<and> truthy (FaceId f)
                 \<and> photoFaces (photo_id ph) d' = [faceRow (photo_id ph) f]))
       \<and> (index_status r = IndexNoFaceDetected \<longrightarrow> photoFaces (photo_id ph) d' = [])
       \<and> (length (photoFaces (photo_id ph) d) \<le> 1 \<longrightarrow> length (photoFaces (photo_id ph) d') \<le> 1)"
proof -
  note st = indexPhotoFace_store [OF assms]
  have a: "\<exists>f. detectedFace io = Some f \<and> truthy (FaceId f)
             \<and> photoFaces (photo_id ph) d' = [faceRow (photo_id ph) f]"
    if "index_status r = Indexed"
  proof -
    from st that obtain f where f: "detectedFace io = Some f" "truthy (FaceId f)"
      and c: "faceEmbedding_create (faceRow (photo_id ph) f)
                (clearExistingPhotoFaces e io (photo_id ph) d) = Inr d'"
      by blast
    have "photoFaces (photo_id ph) d' = [faceRow (photo_id ph) f]"
      using photoFaces_create [OF c, of "photo_id ph"]
      by (simp add: photoFaces_clearExistingPhotoFaces faceRow_def)
    with f show ?thesis by blast
  qed
  have b: "photoFaces (photo_id ph) d' = []" if "index_status r = IndexNoFaceDetected"
    using st that by (simp add: photoFaces_clearExistingPhotoFaces)
  have c: "length (photoFaces (photo_id ph) d') \<le> 1"
    if le: "length (photoFaces (photo_id ph) d) \<le> 1"
  proof (cases "index_status r")
    case Indexed
    with a show ?thesis by auto
  next
    case IndexNoFaceDetected
    with b show ?thesis by simp
  next
    case IndexDisabled
    with st le show ?thesis by simp
  next
    case IndexError
    with st have "d' = d \<or> d' = clearExistingPhotoFaces e io (photo_id ph) d" by simp
    then show ?thesis using le by (auto simp: photoFaces_clearExistingPhotoFaces)
  qed
  show ?thesis using a b c by blast
qed

lemma ensureCollection_Inr: "ensureCollection io ready = Inr x \<Longrightarrow> x"
  by (auto simp: ensureCollection_def split: if_splits sum.splits)

lemma clearExistingPhotoFaces_rows:
  "faceEmbeddings (clearExistingPhotoFaces e io photoId d)
     = filter (\<lambda>f. \<not> (face_photoId f = photoId \<and> provider f = FACE_PROVIDER)) (faceEmbeddings d)
   \<and> photos (clearExistingPhotoFaces e io photoId d) = photos d"
  by (auto simp: clearExistingPhotoFaces_def Let_def split: sum.splits)

lemma handleFree_other_rows:
  assumes "filter (\<lambda>f. face_photoId f \<noteq> photoId) (faceEmbeddings d')
             = filter (\<lambda>f. face_photoId f \<noteq> photoId) (faceEmbeddings d)"
  shows "handleFree d' photoId io = handleFree d photoId io"
proof -
  have "set (filter (\<lambda>f. face_photoId f \<noteq> photoId) (faceEmbeddings d'))
          = set (filter (\<lambda>f. face_photoId f \<noteq> photoId) (faceEmbeddings d))"
    using assms by simp
  then have "\<And>row. (row \<in> set (faceEmbeddings d') \<and> face_photoId row \<noteq> photoId)
                 \<longleftrightarrow> (row \<in> set (faceEmbeddings d) \<and> face_photoId row \<noteq> photoId)"
    by auto
  then show ?thesis
    unfolding handleFree_def list_ex_iff by (cases "detectedFace io") auto
qed

text \<open>
  One call for which the provider is configured, the collection can be ensured, the
  provider answers \<open>IndexFaces\<close> with at most one record, the reported handle belongs to no
  other photo and the photo is in the store: the answer and the store are determined.
\<close>

lemma indexPhotoFace_at_most_one_face:
  assumes cfg: "getFaceSearchConfig e \<noteq> None"
      and ens: "ensureCollection io ready = Inr ready0"
      and one: "reportsAtMostOneFace io"
      and free: "handleFree d (photo_id ph) io"
      and present: "list_ex (\<lambda>p. photo_id p = photo_id ph) (photos d)"
      and run: "indexPhotoFace e io ph (ready, d) = (r, ready', d')"
  shows "index_status r
           = (if expectedFaceRows (photo_id ph) io = [] then IndexNoFaceDetected else Indexed)
       \<and> photoFaces (photo_id ph) d' = expectedFaceRows (photo_id ph) io
       \<and> ready' \<and> photos d' = photos d
       \<and> filter (\<lambda>f. face_photoId f \<noteq> photo_id ph) (faceEmbeddings d')
           = filter (\<lambda>f. face_photoId f \<noteq> photo_id ph) (faceEmbeddings d)"
proof -
  let ?d1 = "clearExistingPhotoFaces e io (photo_id ph) d"
  note rows = clearExistingPhotoFaces_rows [of e io "photo_id ph" d]
  have r0: "ready0" using ens by (rule ensureCollection_Inr)
  have other1: "filter (\<lambda>f. face_photoId f \<noteq> photo_id ph) (faceEmbeddings ?d1)
                  = filter (\<lambda>f. face_photoId f \<noteq> photo_id ph) (faceEmbeddings d)"
    using rows by (auto intro: filter_cong)
  obtain response where ans: "indexFaces io = Inr response"
    using one by (cases "indexFaces io") (auto simp: reportsAtMostOneFace_def)
  show ?thesis
  proof (cases "expectedFaceRows (photo_id ph) io = []")
    case True
    then have res: "indexPhotoFace e io ph (ready, d)
        = (\<lparr>index_status = IndexNoFaceDetected,
             index_message = Some ''No clear face detected in this photo.''\<rparr>, ready0, ?d1)"
      using cfg ens ans
      by (auto simp: indexPhotoFace_def Let_def expectedFaceRows_def detectedFace_def truthy_def
          split: option.splits list.splits if_splits)
    show ?thesis
      using res run True r0 other1 rows
      by (auto simp: photoFaces_clearExistingPhotoFaces)
  next
    case False
    then obtain f where f: "detectedFace io = Some f" "truthy (FaceId f)"
      and ex: "expectedFaceRows (photo_id ph) io = [faceRow (photo_id ph) f]"
      by (auto simp: expectedFaceRows_def split: option.splits if_splits)
    have single: "response = Some [Some f]"
      using f(1) ans one
      by (auto simp: detectedFace_def reportsAtMostOneFace_def split: option.splits list.splits)
    have nodup: "\<not> list_ex (\<lambda>g. provider g = provider (faceRow (photo_id ph) f)
                       \<and> externalId g = externalId (faceRow (photo_id ph) f)) (faceEmbeddings ?d1)"
      using free f rows
      by (auto simp: handleFree_def list_ex_iff faceRow_def truthy_def split: option.splits)
    have fk: "list_ex (\<lambda>p. photo_id p = face_photoId (faceRow (photo_id ph) f)) (photos ?d1)"
      using present rows by (simp add: faceRow_def)
    let ?d2 = "?d1\<lparr>faceEmbeddings := faceEmbeddings ?d1 @ [faceRow (photo_id ph) f]\<rparr>"
    have cr: "faceEmbedding_create (faceRow (photo_id ph) f) ?d1 = Inr ?d2"
      using nodup fk by (simp add: faceEmbedding_create_def)
    have res: "indexPhotoFace e io ph (ready, d)
        = (\<lparr>index_status = Indexed, index_message = None\<rparr>, ready0, ?d2)"
      using cfg ens ans single f(2) cr
      by (auto simp: indexPhotoFace_def Let_def truthy_def faceRow_def split: option.splits)
    have pf: "photoFaces (photo_id ph) ?d2 = [faceRow (photo_id ph) f]"
      using photoFaces_create [OF cr, of "photo_id ph"]
      by (simp add: photoFaces_clearExistingPhotoFaces faceRow_def)
    have other2: "filter (\<lambda>g. face_photoId g \<noteq> photo_id ph) (faceEmbeddings ?d2)
                  = filter (\<lambda>g. face_photoId g \<noteq> photo_id ph) (faceEmbeddings d)"
      using other1 by (simp add: faceRow_def)
    show ?thesis
      using res run ex pf r0 other2 rows by auto
  qed
qed

text \<open>
  C7. Index the same photo twice with the provider configured and answering, each time
  reporting zero or one face (a handle that belongs to no other photo), the photo being in
  the store. After each call the FaceRecords of the photo are exactly the row of the face
  reported in that call, or none when no face (with a face id) was reported, and the answer
  is \<open>indexed\<close> or \<open>no_face_detected\<close> accordingly: after the second call there is one
  FaceRecord or none, never two, whatever the photo had before.
\<close>

theorem indexPhotoFace_twice_one_record:
  assumes "getFaceSearchConfig e \<noteq> None"
      and "ensureCollection io1 ready = Inr ready0"
      and "reportsAtMostOneFace io1" and "reportsAtMostOneFace io2"
      and "handleFree d (photo_id ph) io1" and "handleFree d (photo_id ph) io2"
      and "list_ex (\<lambda>p. photo_id p = photo_id ph) (photos d)"
      and "indexPhotoFace e io1 ph (ready, d) = (r1, ready1, d1)"
      and "indexPhotoFace e io2 ph (ready1, d1) = (r2, ready2, d2)"
  shows "index_status r1
           = (if expectedFaceRows (photo_id ph) io1 = [] then IndexNoFaceDetected else Indexed)
       \<and> photoFaces (photo_id ph) d1 = expectedFaceRows (photo_id ph) io1
       \<and> index_status r2
           = (if expectedFaceRows (photo_id ph) io2 = [] then IndexNoFaceDetected else Indexed)
       \<and> photoFaces (photo_id ph) d2 = expectedFaceRows (photo_id ph) io2
       \<and> length (photoFaces (photo_id ph) d2) \<le> 1"
proof -
  note first = indexPhotoFace_at_most_one_face [OF assms(1,2,3,5,7,8)]
  have rdy: "ready1" and same_photos: "photos d1 = photos d"
    and others: "filter (\<lambda>f. face_photoId f \<noteq> photo_id ph) (faceEmbeddings d1)
                   = filter (\<lambda>f. face_photoId f \<noteq> photo_id ph) (faceEmbeddings d)"
    using first by blast+
  have ens2: "ensureCollection io2 ready1 = Inr True"
    using rdy by (simp add: ensureCollection_def)
  have free2: "handleFree d1 (photo_id ph) io2"
    using handleFree_other_rows [OF others, of io2] assms(6) by simp
  have present2: "list_ex (\<lambda>p. photo_id p = photo_id ph) (photos d1)"
    using same_photos assms(7) by simp
  note second = indexPhotoFace_at_most_one_face [OF assms(1) ens2 assms(4) free2 present2 assms(9)]
  have "length (expectedFaceRows (photo_id ph) io2) \<le> 1"
    by (simp add: expectedFaceRows_def split: option.splits)
  moreover have "index_status r1
           = (if expectedFaceRows (photo_id ph) io1 = [] then IndexNoFaceDetected else Indexed)
       \<and> photoFaces (photo_id ph) d1 = expectedFaceRows (photo_id ph) io1"
    using first by blast
  moreover have "index_status r2
           = (if expectedFaceRows (photo_id ph) io2 = [] then IndexNoFaceDetected else Indexed)
       \<and> photoFaces (photo_id ph) d2 = expectedFaceRows (photo_id ph) io2"
    using second by blast
  ultimately show ?thesis by simp
qed

theorem indexPhotoFace_twice_one_record_witness:
  "photoFaces ''P1'' faces_store = [faceRow ''P1'' (the (detected ''F1''))]
   \<and> index_status (fst (indexPhotoFace face_env (provider_answers [detected ''F3''] []) P1
        (snd (indexPhotoFace face_env (provider_answers [detected ''F2''] []) P1
               (False, faces_store))))) = Indexed
   \<and> photoFaces ''P1'' (snd (snd (indexPhotoFace face_env (provider_answers [detected ''F3''] []) P1
        (snd (indexPhotoFace face_env (provider_answers [detected ''F2''] []) P1
               (False, faces_store))))))
       = [faceRow ''P1'' (the (detected ''F3''))]
   \<and> index_status (fst (indexPhotoFace face_env (provider_answers [] []) P1
        (snd (indexPhotoFace face_env (provider_answers [detected ''F2''] []) P1
               (False, faces_store))))) = IndexNoFaceDetected
   \<and> photoFaces ''P1'' (snd (snd (indexPhotoFace face_env (provider_answers [] []) P1
        (snd (indexPhotoFace face_env (provider_answers [detected ''F2''] []) P1
               (False, faces_store))))))
       = []"
proof -
  let ?io1 = "provider_answers [detected ''F2''] []"
  let ?io2 = "provider_answers [detected ''F3''] []"
  let ?io0 = "provider_answers [] []"
  let ?run1 = "indexPhotoFace face_env ?io1 P1 (False, faces_store)"
  have cfg: "getFaceSearchConfig face_env \<noteq> None"
    by (simp add: getFaceSearchConfig_def face_env_def truthy_def)
  have ens: "ensureCollection ?io1 False = Inr True"
    by (simp add: ensureCollection_def provider_answers_def)
  have one: "reportsAtMostOneFace ?io1" "reportsAtMostOneFace ?io2" "reportsAtMostOneFace ?io0"
    by (simp_all add: reportsAtMostOneFace_def provider_answers_def)
  have pid: "photo_id P1 = ''P1''"
    by (simp add: P1_def example_photo_def)
  have free: "handleFree faces_store (photo_id P1) ?io1" "handleFree faces_store (photo_id P1) ?io2"
      "handleFree faces_store (photo_id P1) ?io0"
    by code_simp+
  have present: "list_ex (\<lambda>p. photo_id p = photo_id P1) (photos faces_store)"
    by code_simp
  have before: "photoFaces ''P1'' faces_store = [faceRow ''P1'' (the (detected ''F1''))]"
    by code_simp
  have run1: "?run1 = (fst ?run1, fst (snd ?run1), snd (snd ?run1))"
    by simp
  have run2: "indexPhotoFace face_env io P1 (fst (snd ?run1), snd (snd ?run1))
      = (fst (indexPhotoFace face_env io P1 (snd ?run1)),
         fst (snd (indexPhotoFace face_env io P1 (snd ?run1))),
         snd (snd (indexPhotoFace face_env io P1 (snd ?run1))))" for io
    by simp
  have ex3: "expectedFaceRows ''P1'' ?io2 = [faceRow ''P1'' (the (detected ''F3''))]"
    by (simp add: expectedFaceRows_def detectedFace_def provider_answers_def detected_def truthy_def)
  have ex0: "expectedFaceRows ''P1'' ?io0 = []"
    by (simp add: expectedFaceRows_def detectedFace_def provider_answers_def)
  note twice = indexPhotoFace_twice_one_record [OF cfg ens one(1,2) free(1,2) present run1 run2]
  note none = indexPhotoFace_twice_one_record [OF cfg ens one(1,3) free(1,3) present run1 run2]
  have a: "index_status (fst (indexPhotoFace face_env ?io2 P1 (snd ?run1))) = Indexed
         \<and> photoFaces ''P1'' (snd (snd (indexPhotoFace face_env ?io2 P1 (snd ?run1))))
             = [faceRow ''P1'' (the (detected ''F3''))]"
    using twice by (simp add: pid ex3)
  have b: "index_status (fst (indexPhotoFace face_env ?io0 P1 (snd ?run1))) = IndexNoFaceDetected
         \<and> photoFaces ''P1'' (snd (snd (indexPhotoFace face_env ?io0 P1 (snd ?run1)))) = []"
    using none by (simp add: pid ex0)
  show ?thesis using before a b by simp
qed

text \<open>
  C5 on the code. The provider reports two faces for \<open>P1\<close> and rejects the deletion of the
  extra one: the call answers \<open>error\<close> and records no FaceRecord. When the deletion is
  accepted the call answers \<open>indexed\<close> and records the first face.
\<close>

theorem extra_face_deletion_failure_is_fatal:
  "indexPhotoFace face_env
     ((provider_answers [detected ''F1'', detected ''F2''] [])
        \<lparr>deleteExtras := Inl (JsError ''ThrottlingException'' ''Rate exceeded'')\<rparr>)
     P1 (True, gallery_store)
     = (\<lparr>index_status = IndexError, index_message = Some ''Rate exceeded''\<rparr>, True, gallery_store)
   \<and> photoFaces ''P1'' gallery_store = []
   \<and> indexPhotoFace face_env (provider_answers [detected ''F1'', detected ''F2''] [])
       P1 (True, gallery_store)
     = (\<lparr>index_status = Indexed, index_message = None\<rparr>, True,
        gallery_store\<lparr>faceEmbeddings := [faceRow ''P1'' (the (detected ''F1''))]\<rparr>)"
  by code_simp

section \<open>Properties of selfie search\<close>

subsection \<open>The similarity map\<close>

text \<open>One step never lowers a stored similarity and stores only what the match reports.\<close>

lemma similarityStep_cases:
  "similarityStep match m = m
   \<or> (\<exists>fid s. match_FaceId match = Some fid \<and> fid \<noteq> [] \<and> Similarity match = Some s
         \<and> (case map_of m fid of None \<Rightarrow> 0 | Some v \<Rightarrow> v) < s
         \<and> similarityStep match m = AList.update fid s m)"
  by (auto simp: similarityStep_def Let_def split: option.splits)

lemma similarityStep_mono:
  assumes "map_of m fid = Some v"
  shows "\<exists>v'. map_of (similarityStep match m) fid = Some v' \<and> v \<le> v'"
  using similarityStep_cases [of match m] assms
  by (auto simp: update_conv')

lemma similarity_fold_mono:
  "map_of m fid = Some v \<Longrightarrow> \<exists>v'. map_of (fold similarityStep ms m) fid = Some v' \<and> v \<le> v'"
proof (induction ms arbitrary: m v)
  case Nil
  then show ?case by simp
next
  case (Cons match ms)
  from similarityStep_mono [OF Cons.prems, of match]
  obtain v1 where v1: "map_of (similarityStep match m) fid = Some v1" "v \<le> v1" by blast
  from Cons.IH [OF v1(1)] obtain v' where
    "map_of (fold similarityStep ms (similarityStep match m)) fid = Some v'" "v1 \<le> v'" by blast
  with v1(2) show ?case by auto
qed

lemma similarity_fold_attained:
  "map_of (fold similarityStep ms m) fid = Some v \<Longrightarrow>
   map_of m fid = Some v
   \<or> (fid \<noteq> [] \<and> (\<exists>match \<in> set ms. match_FaceId match = Some fid \<and> Similarity match = Some v))"
proof (induction ms arbitrary: m)
  case Nil
  then show ?case by simp
next
  case (Cons match ms)
  from Cons.IH [OF Cons.prems [simplified]]
  consider "map_of (similarityStep match m) fid = Some v"
    | "fid \<noteq> [] \<and> (\<exists>match \<in> set ms. match_FaceId match = Some fid \<and> Similarity match = Some v)"
    by blast
  then show ?case
  proof cases
    case 1
    then show ?thesis
      using similarityStep_cases [of match m]
      by (auto simp: update_conv' split: if_splits)
  next
    case 2
    then show ?thesis by auto
  qed
qed

lemma similarity_fold_positive:
  "\<forall>fid v. map_of m fid = Some v \<longrightarrow> 0 < v \<Longrightarrow>
   map_of (fold similarityStep ms m) fid = Some v \<Longrightarrow> 0 < v"
proof (induction ms arbitrary: m)
  case Nil
  then show ?case by simp
next
  case (Cons match ms)
  have "\<forall>fid v. map_of (similarityStep match m) fid = Some v \<longrightarrow> 0 < v"
    using similarityStep_cases [of match m] Cons.prems(1)
    by (auto simp: update_conv' split: option.splits if_splits) (blast intro: less_trans)
  from Cons.IH [OF this] Cons.prems(2) show ?case by simp
qed

lemma similarity_fold_bound:
  assumes "match \<in> set ms" and "match_FaceId match = Some fid" and "fid \<noteq> []"
      and "Similarity match = Some s" and "0 < s"
  shows "\<exists>v. map_of (fold similarityStep ms m) fid = Some v \<and> s \<le> v"
  using assms(1)
proof (induction ms arbitrary: m)
  case Nil
  then show ?case by simp
next
  case (Cons a ms)
  show ?case
  proof (cases "a = match")
    case True
    have "\<exists>v. map_of (similarityStep match m) fid = Some v \<and> s \<le> v"
      using assms(2-5)
      by (auto simp: similarityStep_def Let_def update_conv' split: option.splits)
    then obtain v where v: "map_of (similarityStep match m) fid = Some v" "s \<le> v" by blast
    from similarity_fold_mono [OF v(1), of ms] v(2) True show ?thesis by auto
  next
    case False
    with Cons.prems have "match \<in> set ms" by simp
    from Cons.IH [OF this] show ?thesis by simp
  qed
qed

subsection \<open>The eligible FaceRecords and the best match per photo\<close>

lemma set_map_filter_iff: "y \<in> set (List.map_filter g xs) \<longleftrightarrow> (\<exists>x \<in> set xs. g x = Some y)"
  by (induction xs) (auto simp: map_filter_simps split: option.splits)

lemma eligible_row:
  "(if provider x = FACE_PROVIDER \<and> externalId x \<in> set faceIds
             then (case find (\<lambda>p. photo_id p = face_photoId x) (photos d) of
                     None \<Rightarrow> None
                   | Some p \<Rightarrow>
                       if photo_eventId p = eventId \<and> photo_status p = PUBLISHED \<and> isUploaded p
                       then Some (x, p) else None)
             else None) = Some (f, p) \<longleftrightarrow>
    x = f \<and> provider f = FACE_PROVIDER \<and> externalId f \<in> set faceIds
     \<and> find (\<lambda>p. photo_id p = face_photoId f) (photos d) = Some p
     \<and> photo_eventId p = eventId \<and> photo_status p = PUBLISHED \<and> isUploaded p"
  by (cases "find (\<lambda>p. photo_id p = face_photoId x) (photos d)") auto

lemma findEligibleEmbeddings_iff:
  "(f, p) \<in> set (findEligibleEmbeddings faceIds eventId d) \<longleftrightarrow>
     f \<in> set (faceEmbeddings d) \<and> provider f = FACE_PROVIDER \<and> externalId f \<in> set faceIds
     \<and> find (\<lambda>p. photo_id p = face_photoId f) (photos d) = Some p
     \<and> photo_eventId p = eventId \<and> photo_status p = PUBLISHED \<and> isUploaded p"
  unfolding findEligibleEmbeddings_def set_map_filter_iff eligible_row
  by blast

lemma find_photo_id:
  "find (\<lambda>p. photo_id p = pid) ps = Some p \<Longrightarrow> p \<in> set ps \<and> photo_id p = pid"
  by (auto simp: find_Some_iff)

lemma bestStep_cases:
  "bestStep sims ep best = best
     \<and> (\<exists>v p. map_of best (face_photoId (fst ep)) = Some (v, p) \<and> simOf sims (fst ep) \<le> v)
   \<or> bestStep sims ep best = AList.update (face_photoId (fst ep)) (simOf sims (fst ep), snd ep) best
     \<and> (\<forall>v p. map_of best (face_photoId (fst ep)) = Some (v, p) \<longrightarrow> v < simOf sims (fst ep))"
  by (cases "map_of best (face_photoId (fst ep))")
     (auto simp: bestStep_def simOf_def Let_def not_less)

lemma bestStep_mono:
  assumes "map_of best pid = Some (v, p)"
  shows "\<exists>v' p'. map_of (bestStep sims ep best) pid = Some (v', p') \<and> v \<le> v'"
  using bestStep_cases [of sims ep best] assms
  by (auto simp: update_conv')

lemma best_fold_mono:
  "map_of best pid = Some (v, p) \<Longrightarrow>
   \<exists>v' p'. map_of (fold (bestStep sims) es best) pid = Some (v', p') \<and> v \<le> v'"
proof (induction es arbitrary: best v p)
  case Nil
  then show ?case by simp
next
  case (Cons ep es)
  from bestStep_mono [OF Cons.prems, of sims ep]
  obtain v1 p1 where s: "map_of (bestStep sims ep best) pid = Some (v1, p1)" "v \<le> v1" by blast
  from Cons.IH [OF s(1)] obtain v' p' where
    "map_of (fold (bestStep sims) es (bestStep sims ep best)) pid = Some (v', p')" "v1 \<le> v'"
    by blast
  with s(2) show ?case by auto
qed

lemma best_fold_bound:
  assumes "ep \<in> set es"
  shows "\<exists>v p. map_of (fold (bestStep sims) es best) (face_photoId (fst ep)) = Some (v, p)
               \<and> simOf sims (fst ep) \<le> v"
  using assms
proof (induction es arbitrary: best)
  case Nil
  then show ?case by simp
next
  case (Cons a es)
  show ?case
  proof (cases "a = ep")
    case True
    have "\<exists>v p. map_of (bestStep sims ep best) (face_photoId (fst ep)) = Some (v, p)
                 \<and> simOf sims (fst ep) \<le> v"
      using bestStep_cases [of sims ep best] by (auto simp: update_conv')
    then obtain v p where s: "map_of (bestStep sims ep best) (face_photoId (fst ep)) = Some (v, p)"
      "simOf sims (fst ep) \<le> v" by blast
    from best_fold_mono [OF s(1), of sims es] s(2) True show ?thesis by auto
  next
    case False
    with Cons.prems have "ep \<in> set es" by simp
    from Cons.IH [OF this] show ?thesis by simp
  qed
qed

lemma best_fold_attained:
  "map_of (fold (bestStep sims) es best) pid = Some (v, p) \<Longrightarrow>
   map_of best pid = Some (v, p)
   \<or> (\<exists>ep \<in> set es. face_photoId (fst ep) = pid \<and> snd ep = p \<and> simOf sims (fst ep) = v)"
proof (induction es arbitrary: best)
  case Nil
  then show ?case by simp
next
  case (Cons a es)
  from Cons.IH [OF Cons.prems [simplified]]
  consider "map_of (bestStep sims a best) pid = Some (v, p)"
    | "\<exists>ep \<in> set es. face_photoId (fst ep) = pid \<and> snd ep = p \<and> simOf sims (fst ep) = v"
    by blast
  then show ?case
  proof cases
    case 1
    then show ?thesis
      using bestStep_cases [of sims a best]
      by (auto simp: update_conv' split: if_splits)
  next
    case 2
    then show ?thesis by auto
  qed
qed

lemma best_fold_distinct:
  "distinct (map fst best) \<Longrightarrow> distinct (map fst (fold (bestStep sims) es best))"
proof (induction es arbitrary: best)
  case Nil
  then show ?case by simp
next
  case (Cons a es)
  have "distinct (map fst (bestStep sims a best))"
    using bestStep_cases [of sims a best] Cons.prems by (auto simp: distinct_update)
  from Cons.IH [OF this] show ?case by simp
qed

subsection \<open>The shape of the search result\<close>

lemma promise_all_list_all2:
  "promise_all f xs = Inr ys \<Longrightarrow> list_all2 (\<lambda>x y. f x = Inr y) xs ys"
proof (induction xs arbitrary: ys)
  case Nil
  then show ?case by simp
next
  case (Cons x xs)
  then show ?case
    by (cases "f x"; cases "promise_all f xs") auto
qed

lemma serializePhoto_fields:
  "serializePhoto gsu e ph = Inr sp \<Longrightarrow>
   sp_id sp = photo_id ph \<and> sp_eventId sp = photo_eventId ph \<and> sp_status sp = photo_status ph"
  by (cases "createSignedDownloadUrl gsu e (storageKey ph) None")
     (auto simp: serializePhoto_def)

lemma selfieCatch_matches: "matches (selfieCatch err) = []"
  by (simp add: selfieCatch_def)

lemma selfieCatch_status: "search_status (selfieCatch err) \<noteq> SearchOk"
  by (simp add: selfieCatch_def)

text \<open>A result other than \<open>ok\<close> carries no match.\<close>

lemma findSelfieMatches_not_ok:
  assumes "findSelfieMatches e io gsu eventId limit (ready, d) = (r, ready')"
      and "search_status r \<noteq> SearchOk"
  shows "matches r = []"
  using assms
  by (auto simp: findSelfieMatches_def Let_def selfieCatch_matches
      split: if_splits sum.splits option.splits)

text \<open>An \<open>ok\<close> result is the serialization of the sorted, truncated best matches.\<close>

lemma findSelfieMatches_ok:
  assumes "findSelfieMatches e io gsu eventId limit (ready, d) = (r, ready')"
      and "search_status r = SearchOk"
  shows "\<exists>ms. searchFacesByImage io = Inr (Some ms)
           \<and> list_all2
                (\<lambda>t m. similarity m = fst t \<and> serializePhoto gsu e (snd t) = Inr (match_photo m))
                (slice0 limit (sort_key (\<lambda>m. - fst m)
                   (map snd (fold (bestStep (fold similarityStep ms []))
                      (findEligibleEmbeddings (map fst (fold similarityStep ms [])) eventId d) []))))
                (matches r)"
proof -
  obtain ms where ms: "searchFacesByImage io = Inr (Some ms)"
    using assms
    by (auto simp: findSelfieMatches_def Let_def selfieCatch_status
        split: if_splits sum.splits option.splits)
  let ?top = "slice0 limit (sort_key (\<lambda>m. - fst m)
                   (map snd (fold (bestStep (fold similarityStep ms []))
                      (findEligibleEmbeddings (map fst (fold similarityStep ms [])) eventId d) [])))"
  let ?f = "\<lambda>m. case serializePhoto gsu e (snd m) of
                   Inl err \<Rightarrow> Inl err
                 | Inr sp \<Rightarrow> Inr \<lparr>similarity = fst m, match_photo = sp\<rparr>"
  have "promise_all ?f ?top = Inr (matches r)"
    using assms ms
    by (auto simp: findSelfieMatches_def Let_def selfieCatch_status
        split: if_splits sum.splits option.splits)
  from promise_all_list_all2 [OF this]
  have "list_all2 (\<lambda>x y. ?f x = Inr y) ?top (matches r)" .
  moreover have "?f t = Inr m \<Longrightarrow>
      similarity m = fst t \<and> serializePhoto gsu e (snd t) = Inr (match_photo m)" for t m
    by (cases "serializePhoto gsu e (snd t)") auto
  ultimately have "list_all2
      (\<lambda>t m. similarity m = fst t \<and> serializePhoto gsu e (snd t) = Inr (match_photo m))
      ?top (matches r)"
    by (rule list_all2_mono) blast
  with ms show ?thesis by blast
qed

lemma set_slice0: "set (slice0 n xs) \<subseteq> set xs"
  by (auto simp: slice0_def dest: in_set_takeD)

lemma length_slice0: "0 \<le> n \<Longrightarrow> length (slice0 n xs) \<le> nat n"
  by (simp add: slice0_def)

lemma sorted_slice0: "sorted (map f xs) \<Longrightarrow> sorted (map f (slice0 n xs))"
  by (simp add: slice0_def take_map [symmetric] sorted_wrt_take)

lemma distinct_map_slice0: "distinct (map f xs) \<Longrightarrow> distinct (map f (slice0 n xs))"
  by (simp add: slice0_def take_map [symmetric])

subsection \<open>What an entry of \<open>bestByPhotoId\<close> says\<close>

lemma map_of_fold_similarity_keys:
  "fid \<in> set (map fst (fold similarityStep ms [])) \<Longrightarrow>
   \<exists>v. map_of (fold similarityStep ms []) fid = Some v"
  by (metis map_of_eq_None_iff not_None_eq set_map)

lemma best_entry:
  fixes ms :: "face_match list" and d :: db and ev :: string
  defines "sims \<equiv> fold similarityStep ms []"
  defines "best \<equiv> fold (bestStep sims) (findEligibleEmbeddings (map fst sims) ev d) []"
  assumes entry: "(pid, v, p) \<in> set best"
  shows "photo_id p = pid \<and> p \<in> set (photos d) \<and> photo_eventId p = ev
       \<and> photo_status p = PUBLISHED \<and> isUploaded p
       \<and> (\<exists>f \<in> set (faceEmbeddings d). provider f = FACE_PROVIDER \<and> face_photoId f = pid
             \<and> externalId f \<noteq> []
             \<and> (\<exists>match \<in> set ms. match_FaceId match = Some (externalId f)
                   \<and> Similarity match = Some v))
       \<and> (\<forall>f' \<in> set (faceEmbeddings d). \<forall>match \<in> set ms. \<forall>s.
             provider f' = FACE_PROVIDER \<and> face_photoId f' = pid \<and> externalId f' \<noteq> []
               \<and> match_FaceId match = Some (externalId f') \<and> Similarity match = Some s
             \<longrightarrow> s \<le> v)"
proof -
  let ?es = "findEligibleEmbeddings (map fst sims) ev d"
  have dist: "distinct (map fst best)"
    unfolding best_def by (rule best_fold_distinct) simp
  then have look: "map_of best pid = Some (v, p)"
    using entry by simp
  from best_fold_attained [OF look [unfolded best_def]]
  obtain ep where ep: "ep \<in> set ?es" "face_photoId (fst ep) = pid" "snd ep = p"
      "simOf sims (fst ep) = v"
    by auto
  obtain f where f: "ep = (f, p)" using ep(3) by (cases ep) auto
  have elig: "f \<in> set (faceEmbeddings d)" "provider f = FACE_PROVIDER"
      "externalId f \<in> set (map fst sims)"
      "find (\<lambda>p. photo_id p = face_photoId f) (photos d) = Some p"
      "photo_eventId p = ev" "photo_status p = PUBLISHED" "isUploaded p"
    using ep(1) unfolding f findEligibleEmbeddings_iff by auto
  have fpid: "face_photoId f = pid" using ep(2) f by simp
  have photo: "p \<in> set (photos d)" "photo_id p = pid"
    using find_photo_id [OF elig(4)] fpid by auto
  obtain v0 where v0: "map_of sims (externalId f) = Some v0"
    using map_of_fold_similarity_keys [of "externalId f" ms] elig(3) unfolding sims_def by blast
  have vv: "v0 = v" using ep(4) v0 f by (simp add: simOf_def)
  have att: "externalId f \<noteq> [] \<and> (\<exists>match \<in> set ms. match_FaceId match = Some (externalId f)
                \<and> Similarity match = Some v)"
    using similarity_fold_attained [of ms "[]" "externalId f" v0] v0 vv unfolding sims_def by simp
  have pos: "0 < v"
    using similarity_fold_positive [of "[]" ms "externalId f" v0] v0 vv unfolding sims_def by simp
  have bound: "s \<le> v"
    if f': "f' \<in> set (faceEmbeddings d)" "provider f' = FACE_PROVIDER" "face_photoId f' = pid"
       "externalId f' \<noteq> []"
      and mt: "match \<in> set ms" "match_FaceId match = Some (externalId f')" "Similarity match = Some s"
    for f' match s
  proof (cases "0 < s")
    case False
    with pos show ?thesis by simp
  next
    case True
    from similarity_fold_bound [OF mt(1,2) f'(4) mt(3) True, of "[]"]
    obtain v' where v': "map_of sims (externalId f') = Some v'" "s \<le> v'"
      unfolding sims_def by blast
    then have key: "externalId f' \<in> set (map fst sims)"
      by (metis map_of_eq_None_iff option.distinct(1) set_map)
    have "(f', p) \<in> set ?es"
      unfolding findEligibleEmbeddings_iff using f' key elig(4-7) fpid by simp
    from best_fold_bound [OF this, of sims "[]"]
    obtain v'' p'' where b: "map_of best pid = Some (v'', p'')" "simOf sims f' \<le> v''"
      unfolding best_def using f'(3) by auto
    have "v'' = v" using b(1) look by simp
    moreover have "simOf sims f' = v'" using v'(1) by (simp add: simOf_def)
    ultimately show ?thesis using b(2) v'(2) by simp
  qed
  show ?thesis
    using photo elig(1,2,5,6,7) fpid att bound by blast
qed

subsection \<open>The claims about the returned list\<close>

lemma list_all2_right_member:
  "list_all2 P xs ys \<Longrightarrow> y \<in> set ys \<Longrightarrow> \<exists>x \<in> set xs. P x y"
  by (induction rule: list_all2_induct) auto

lemma list_all2_map_eq:
  "list_all2 P xs ys \<Longrightarrow> (\<And>x y. P x y \<Longrightarrow> g y = h x) \<Longrightarrow> map g ys = map h xs"
  by (induction rule: list_all2_induct) auto

lemma distinct_map_sort_key:
  "distinct (map g xs) \<Longrightarrow> distinct (map g (sort_key k xs))"
  by (simp add: distinct_map)

lemma reported_iff:
  "reported io fid s \<longleftrightarrow>
     (\<exists>ms. searchFacesByImage io = Inr (Some ms) \<and> fid \<noteq> []
          \<and> (\<exists>match \<in> set ms. match_FaceId match = Some fid \<and> Similarity match = Some s))"
  by (auto simp: reported_def list_ex_iff split: sum.splits option.splits)

lemma resolvesTo_iff:
  "resolvesTo d fid pid \<longleftrightarrow>
     (\<exists>f \<in> set (faceEmbeddings d). provider f = FACE_PROVIDER \<and> externalId f = fid
        \<and> face_photoId f = pid)"
  by (simp add: resolvesTo_def list_ex_iff)

text \<open>
  C4. In every search result no photo occurs twice; every returned photo is a photo of the
  store that belongs to the requested event, is published and is uploaded; and its
  similarity is the maximum the provider reported over the face handles that resolve to
  it: the provider reported it for one such handle, and reported nothing larger for any of
  them.
\<close>

theorem selfie_matches_distinct_max_eligible:
  assumes "findSelfieMatches e io gsu eventId limit (ready, d) = (r, ready')"
  shows "distinct (map (\<lambda>m. sp_id (match_photo m)) (matches r))
       \<and> (\<forall>m \<in> set (matches r).
            sp_eventId (match_photo m) = eventId \<and> sp_status (match_photo m) = PUBLISHED
          \<and> (\<exists>p \<in> set (photos d). photo_id p = sp_id (match_photo m)
                \<and> photo_eventId p = eventId \<and> photo_status p = PUBLISHED \<and> isUploaded p)
          \<and> (\<exists>fid. reported io fid (similarity m) \<and> resolvesTo d fid (sp_id (match_photo m)))
          \<and> (\<forall>fid s. reported io fid s \<and> resolvesTo d fid (sp_id (match_photo m))
                \<longrightarrow> s \<le> similarity m))"
proof (cases "search_status r = SearchOk")
  case False
  with findSelfieMatches_not_ok [OF assms] show ?thesis by simp
next
  case True
  from findSelfieMatches_ok [OF assms True] obtain ms where
    ms: "searchFacesByImage io = Inr (Some ms)" and
    all2: "list_all2
        (\<lambda>t m. similarity m = fst t \<and> serializePhoto gsu e (snd t) = Inr (match_photo m))
        (slice0 limit (sort_key (\<lambda>m. - fst m)
           (map snd (fold (bestStep (fold similarityStep ms []))
              (findEligibleEmbeddings (map fst (fold similarityStep ms [])) eventId d) []))))
        (matches r)"
    by blast
  let ?best = "fold (bestStep (fold similarityStep ms []))
                 (findEligibleEmbeddings (map fst (fold similarityStep ms [])) eventId d) []"
  let ?top = "slice0 limit (sort_key (\<lambda>m. - fst m) (map snd ?best))"
  note entry = best_entry [where ms = ms and d = d and ev = eventId]
  have ids: "map (\<lambda>t. photo_id (snd t)) (map snd ?best) = map fst ?best"
    using entry by (auto simp: comp_def)
  have "distinct (map fst ?best)"
    by (rule best_fold_distinct) simp
  then have "distinct (map (\<lambda>t. photo_id (snd t)) (map snd ?best))"
    by (simp only: ids)
  then have dtop: "distinct (map (\<lambda>t. photo_id (snd t)) ?top)"
    by (intro distinct_map_slice0 distinct_map_sort_key)
  have "map (\<lambda>m. sp_id (match_photo m)) (matches r) = map (\<lambda>t. photo_id (snd t)) ?top"
    using all2 by (rule list_all2_map_eq) (auto dest: serializePhoto_fields)
  with dtop have part1: "distinct (map (\<lambda>m. sp_id (match_photo m)) (matches r))"
    by simp
  have part2: "sp_eventId (match_photo m) = eventId \<and> sp_status (match_photo m) = PUBLISHED
          \<and> (\<exists>p \<in> set (photos d). photo_id p = sp_id (match_photo m)
                \<and> photo_eventId p = eventId \<and> photo_status p = PUBLISHED \<and> isUploaded p)
          \<and> (\<exists>fid. reported io fid (similarity m) \<and> resolvesTo d fid (sp_id (match_photo m)))
          \<and> (\<forall>fid s. reported io fid s \<and> resolvesTo d fid (sp_id (match_photo m))
                \<longrightarrow> s \<le> similarity m)"
    if "m \<in> set (matches r)" for m
  proof -
    from list_all2_right_member [OF all2 that] obtain t where
      t: "t \<in> set ?top" "similarity m = fst t"
         "serializePhoto gsu e (snd t) = Inr (match_photo m)"
      by blast
    from t(1) set_slice0 have "t \<in> set (map snd ?best)" by fastforce
    then obtain pid where "(pid, fst t, snd t) \<in> set ?best" by auto
    note en = entry [OF this]
    note sp = serializePhoto_fields [OF t(3)]
    have a: "sp_eventId (match_photo m) = eventId \<and> sp_status (match_photo m) = PUBLISHED"
      using en sp by simp
    have pid: "sp_id (match_photo m) = pid" using en sp by simp
    have b: "\<exists>p \<in> set (photos d). photo_id p = sp_id (match_photo m)
                \<and> photo_eventId p = eventId \<and> photo_status p = PUBLISHED \<and> isUploaded p"
    proof (rule bexI [of _ "snd t"])
      show "photo_id (snd t) = sp_id (match_photo m) \<and> photo_eventId (snd t) = eventId
              \<and> photo_status (snd t) = PUBLISHED \<and> isUploaded (snd t)"
        using en pid by simp
      show "snd t \<in> set (photos d)" using en by simp
    qed
    have c: "\<exists>fid. reported io fid (similarity m) \<and> resolvesTo d fid (sp_id (match_photo m))"
      unfolding reported_iff resolvesTo_iff pid t(2) using en ms by blast
    have d: "s \<le> similarity m"
      if "reported io fid s \<and> resolvesTo d fid (sp_id (match_photo m))" for fid s
      using that en ms unfolding reported_iff resolvesTo_iff pid t(2) by auto
    show ?thesis using a b c d by blast
  qed
  show ?thesis using part1 part2 by blast
qed

theorem selfie_matches_distinct_max_eligible_witness:
  "map (\<lambda>m. (sp_id (match_photo m), similarity m))
     (matches (fst (findSelfieMatches face_env
        (provider_answers [] [reportedMatch ''F1'' 91.2, reportedMatch ''F1'' 87.0,
                              reportedMatch ''F9'' 99, reportedMatch ''FX'' 95])
        test_getSignedUrl ''E1'' 24 (True, faces_store))))
     = [(''P1'', 91.2)]
   \<and> distinct (map (\<lambda>m. sp_id (match_photo m))
       (matches (fst (findSelfieMatches face_env
          (provider_answers [] [reportedMatch ''F1'' 91.2, reportedMatch ''F1'' 87.0,
                                reportedMatch ''F9'' 99, reportedMatch ''FX'' 95])
          test_getSignedUrl ''E1'' 24 (True, faces_store)))))
   \<and> list_all (\<lambda>m. sp_eventId (match_photo m) = ''E1'' \<and> sp_status (match_photo m) = PUBLISHED
                   \<and> (\<exists>fid. reported
                         (provider_answers [] [reportedMatch ''F1'' 91.2, reportedMatch ''F1'' 87.0,
                                               reportedMatch ''F9'' 99, reportedMatch ''FX'' 95])
                         fid (similarity m)
                       \<and> resolvesTo faces_store fid (sp_id (match_photo m))))
       (matches (fst (findSelfieMatches face_env
          (provider_answers [] [reportedMatch ''F1'' 91.2, reportedMatch ''F1'' 87.0,
                                reportedMatch ''F9'' 99, reportedMatch ''FX'' 95])
          test_getSignedUrl ''E1'' 24 (True, faces_store))))"
proof -
  let ?io = "provider_answers [] [reportedMatch ''F1'' 91.2, reportedMatch ''F1'' 87.0,
                                  reportedMatch ''F9'' 99, reportedMatch ''FX'' 95]"
  let ?run = "findSelfieMatches face_env ?io test_getSignedUrl ''E1'' 24 (True, faces_store)"
  have run: "?run = (fst ?run, snd ?run)"
    by simp
  have found: "map (\<lambda>m. (sp_id (match_photo m), similarity m)) (matches (fst ?run))
                 = [(''P1'', 91.2)]"
    by code_simp
  note inst = selfie_matches_distinct_max_eligible [OF run]
  have a: "distinct (map (\<lambda>m. sp_id (match_photo m)) (matches (fst ?run)))"
    using inst by blast
  have b: "list_all (\<lambda>m. sp_eventId (match_photo m) = ''E1'' \<and> sp_status (match_photo m) = PUBLISHED
                   \<and> (\<exists>fid. reported ?io fid (similarity m)
                       \<and> resolvesTo faces_store fid (sp_id (match_photo m))))
             (matches (fst ?run))"
    unfolding list_all_iff using inst by blast
  show ?thesis using found a b by blast
qed

text \<open>
  C8. The limit accepted by \<open>findMeQuerySchema\<close> is an integer from 1 to 50, and the
  matches returned for it are ordered by non-increasing similarity and are at most
  \<open>limit\<close> many.
\<close>

theorem selfie_matches_sorted_and_bounded:
  assumes "findMeQuerySchema q = Inr limit"
      and "findSelfieMatches e io gsu eventId limit (ready, d) = (r, ready')"
  shows "1 \<le> limit \<and> limit \<le> 50
       \<and> sorted_wrt (\<lambda>a b. similarity b \<le> similarity a) (matches r)
       \<and> int (length (matches r)) \<le> limit"
proof -
  have lim: "1 \<le> limit \<and> limit \<le> 50"
    using assms(1)
    by (cases q) (auto simp: findMeQuerySchema_def le_floor_iff floor_le_iff split: if_splits)
  show ?thesis
  proof (cases "search_status r = SearchOk")
    case False
    with findSelfieMatches_not_ok [OF assms(2)] lim show ?thesis by simp
  next
    case True
    from findSelfieMatches_ok [OF assms(2) True] obtain top where
      all2: "list_all2
          (\<lambda>t m. similarity m = fst t \<and> serializePhoto gsu e (snd t) = Inr (match_photo m))
          (slice0 limit (sort_key (\<lambda>m. - fst m) top)) (matches r)"
      by blast
    let ?top = "slice0 limit (sort_key (\<lambda>m. - fst m) top)"
    have len: "length (matches r) = length ?top"
      using all2 by (simp add: list_all2_lengthD)
    have "length ?top \<le> nat limit"
      using lim by (intro length_slice0) simp
    with len lim have bound: "int (length (matches r)) \<le> limit" by (simp add: le_nat_iff)
    have "sorted (map (\<lambda>m. - fst m) ?top)"
      by (intro sorted_slice0 sorted_sort_key)
    moreover have "map (\<lambda>m. - similarity m) (matches r) = map (\<lambda>m. - fst m) ?top"
      using all2 by (rule list_all2_map_eq) simp
    ultimately have "sorted (map (\<lambda>m. - similarity m) (matches r))" by simp
    then have "sorted_wrt (\<lambda>a b. similarity b \<le> similarity a) (matches r)"
      by (simp add: sorted_map)
    with lim bound show ?thesis by simp
  qed
qed

theorem selfie_matches_sorted_and_bounded_witness:
  "findMeQuerySchema (Num 1) = Inr 1
   \<and> map (\<lambda>m. (sp_id (match_photo m), similarity m))
       (matches (fst (findSelfieMatches face_env
          (provider_answers [] [reportedMatch ''F1'' 80.5, reportedMatch ''F9'' 99])
          test_getSignedUrl ''E1'' 1 (True, publishPhotoUpdate ''P9'' 9 faces_store))))
     = [(''P9'', 99)]
   \<and> findMeQuerySchema Absent = Inr 24
   \<and> map (\<lambda>m. (sp_id (match_photo m), similarity m))
       (matches (fst (findSelfieMatches face_env
          (provider_answers [] [reportedMatch ''F1'' 80.5, reportedMatch ''F9'' 99])
          test_getSignedUrl ''E1'' 24 (True, publishPhotoUpdate ''P9'' 9 faces_store))))
     = [(''P9'', 99), (''P1'', 80.5)]
   \<and> sorted_wrt (\<lambda>a b. similarity b \<le> similarity a)
       (matches (fst (findSelfieMatches face_env
          (provider_answers [] [reportedMatch ''F1'' 80.5, reportedMatch ''F9'' 99])
          test_getSignedUrl ''E1'' 24 (True, publishPhotoUpdate ''P9'' 9 faces_store))))
   \<and> int (length (matches (fst (findSelfieMatches face_env
          (provider_answers [] [reportedMatch ''F1'' 80.5, reportedMatch ''F9'' 99])
          test_getSignedUrl ''E1'' 1 (True, publishPhotoUpdate ''P9'' 9 faces_store))))) \<le> 1"
proof -
  let ?io = "provider_answers [] [reportedMatch ''F1'' 80.5, reportedMatch ''F9'' 99]"
  let ?d = "publishPhotoUpdate ''P9'' 9 faces_store"
  let ?run1 = "findSelfieMatches face_env ?io test_getSignedUrl ''E1'' 1 (True, ?d)"
  let ?run24 = "findSelfieMatches face_env ?io test_getSignedUrl ''E1'' 24 (True, ?d)"
  have q1: "findMeQuerySchema (Num 1) = Inr 1"
    by (simp add: findMeQuerySchema_def)
  have q24: "findMeQuerySchema Absent = Inr 24"
    by (simp add: findMeQuerySchema_def)
  have run1: "?run1 = (fst ?run1, snd ?run1)" and run24: "?run24 = (fst ?run24, snd ?run24)"
    by simp_all
  have found1: "map (\<lambda>m. (sp_id (match_photo m), similarity m)) (matches (fst ?run1))
                  = [(''P9'', 99)]"
    by code_simp
  have found24: "map (\<lambda>m. (sp_id (match_photo m), similarity m)) (matches (fst ?run24))
                  = [(''P9'', 99), (''P1'', 80.5)]"
    by code_simp
  have a: "int (length (matches (fst ?run1))) \<le> 1"
    using selfie_matches_sorted_and_bounded [OF q1 run1] by blast
  have b: "sorted_wrt (\<lambda>a b. similarity b \<le> similarity a) (matches (fst ?run24))"
    using selfie_matches_sorted_and_bounded [OF q24 run24] by blast
  show ?thesis using q1 q24 found1 found24 a b by blast
qed

subsection \<open>The status of a search\<close>
















end
